theory Spec2Isabelle
  imports Main
begin

section \<open>JavaScript strings\<close>

text \<open>
  A JavaScript string is modelled as a \<^typ>\<open>string\<close>; each \<^typ>\<open>char\<close> stands for one
  UTF-16 code unit below 256 (the Latin-1 range), which covers every character the
  compiler itself inspects. Code units from 256 on are outside the model.
\<close>

definition nl :: char where "nl = CHR 0x0A"
definition tab :: char where "tab = CHR 0x09"
definition cr :: char where "cr = CHR 0x0D"
definition nul :: char where "nul = CHR 0x00"

definition code :: "char \<Rightarrow> nat" where
  "code c = of_char c"

text \<open>White space and line terminators removed by \<^verbatim>\<open>String.prototype.trim\<close>
  (TAB, LF, VT, FF, CR, SP, NBSP among the code units below 256).\<close>

definition isJsSpace :: "char \<Rightarrow> bool" where
  "isJsSpace c = (code c = 9 \<or> code c = 10 \<or> code c = 11 \<or> code c = 12 \<or> code c = 13
                  \<or> code c = 32 \<or> code c = 160)"

definition trimStart :: "string \<Rightarrow> string" where
  "trimStart s = dropWhile isJsSpace s"

definition trimEnd :: "string \<Rightarrow> string" where
  "trimEnd s = rev (dropWhile isJsSpace (rev s))"

definition trim :: "string \<Rightarrow> string" where
  "trim s = trimEnd (trimStart s)"

text \<open>\<^verbatim>\<open>toLowerCase\<close> on code units below 256: A-Z and the Latin-1 capitals
  (0xC0-0xDE without the multiplication sign 0xD7) move up by 32.\<close>

definition lowerChar :: "char \<Rightarrow> char" where
  "lowerChar c = (if (65 \<le> code c \<and> code c \<le> 90) \<or> (192 \<le> code c \<and> code c \<le> 222 \<and> code c \<noteq> 215)
                  then char_of (code c + 32) else c)"

definition toLowerCase :: "string \<Rightarrow> string" where
  "toLowerCase s = map lowerChar s"

text \<open>\<^verbatim>\<open>s.split(c)\<close> for a one-character separator: never the empty list.\<close>

fun split :: "char \<Rightarrow> string \<Rightarrow> string list" where
  "split sep [] = [[]]"
| "split sep (c # cs) =
     (if c = sep then [] # split sep cs
      else (case split sep cs of [] \<Rightarrow> [[c]] | p # ps \<Rightarrow> (c # p) # ps))"

text \<open>\<^verbatim>\<open>s.indexOf(c)\<close>: \<open>None\<close> stands for -1.\<close>

fun indexOf :: "char \<Rightarrow> string \<Rightarrow> nat option" where
  "indexOf c [] = None"
| "indexOf c (x # xs) =
     (if x = c then Some 0 else (case indexOf c xs of None \<Rightarrow> None | Some i \<Rightarrow> Some (Suc i)))"

definition slice :: "nat \<Rightarrow> nat \<Rightarrow> string \<Rightarrow> string" where
  "slice a b s = take (b - a) (drop a s)"

definition startsWith :: "string \<Rightarrow> string \<Rightarrow> bool" where
  "startsWith p s = (take (length p) s = p)"

definition endsWith :: "string \<Rightarrow> string \<Rightarrow> bool" where
  "endsWith p s = (length p \<le> length s \<and> drop (length s - length p) s = p)"

fun includesStr :: "string \<Rightarrow> string \<Rightarrow> bool" where
  "includesStr p [] = (p = [])"
| "includesStr p (c # cs) = (startsWith p (c # cs) \<or> includesStr p cs)"

fun join :: "string \<Rightarrow> string list \<Rightarrow> string" where
  "join sep [] = []"
| "join sep [x] = x"
| "join sep (x # y # ys) = x @ sep @ join sep (y # ys)"

section \<open>Lexer (lexer.ts)\<close>

datatype TokenType =
    CTIW_START | CTIW_END | DOUBLE_EQUALS
  | EQUALS | COLON | DOT | LPAREN | RPAREN
  | IDENTIFIER | NUMBER | HEX_COLOR | STRING
  | NEWLINE | EOF

record Token =
  tok_type :: TokenType
  tok_value :: string
  tok_line :: nat
  tok_column :: nat

text \<open>A lexer error carries the message of \<^verbatim>\<open>addError\<close>; its only caller builds the
  message from the offending character, which is what the model keeps.\<close>

record LexerError =
  err_char :: char
  err_line :: nat
  err_column :: nat

record Lexer =
  source :: string
  pos :: nat
  line :: nat
  column :: nat
  tokens :: "Token list"
  errors :: "LexerError list"
  inValueContext :: bool
  atStatementStart :: bool


definition isAlpha :: "char \<Rightarrow> bool" where
  "isAlpha c = ((97 \<le> code c \<and> code c \<le> 122) \<or> (65 \<le> code c \<and> code c \<le> 90))"

definition isDigit :: "char \<Rightarrow> bool" where
  "isDigit c = (48 \<le> code c \<and> code c \<le> 57)"

definition isHexDigit :: "char \<Rightarrow> bool" where
  "isHexDigit c = (isDigit c \<or> (97 \<le> code c \<and> code c \<le> 102) \<or> (65 \<le> code c \<and> code c \<le> 70))"

definition isAlphaNumericOrHyphen :: "char \<Rightarrow> bool" where
  "isAlphaNumericOrHyphen c = (isAlpha c \<or> isDigit c \<or> c = CHR ''-'' \<or> c = CHR ''_'')"

subsection \<open>Character classes on the bits of a character\<close>

text \<open>The character classes above, stated on the eight bits of a character (lowest bit
  first). They are the code equations of the classes, so that concrete runs are evaluated
  without arithmetic.\<close>

lemma isDigit_Char [code]:
  "isDigit (Char b0 b1 b2 b3 b4 b5 b6 b7) = (\<not> b7 \<and> \<not> b6 \<and> b5 \<and> b4 \<and> (\<not> b3 \<or> (\<not> b2 \<and> \<not> b1)))"
  unfolding isDigit_def code_def
  by (cases b0; cases b1; cases b2; cases b3; cases b4; cases b5; cases b6; cases b7; simp)

lemma isAlpha_Char [code]:
  "isAlpha (Char b0 b1 b2 b3 b4 b5 b6 b7) =
     (\<not> b7 \<and> b6 \<and> (b0 \<or> b1 \<or> b2 \<or> b3 \<or> b4) \<and> \<not> (b4 \<and> b3 \<and> (b2 \<or> (b1 \<and> b0))))"
  unfolding isAlpha_def code_def
  by (cases b0; cases b1; cases b2; cases b3; cases b4; cases b5; cases b6; cases b7; simp)

lemma isHexDigit_Char [code]:
  "isHexDigit (Char b0 b1 b2 b3 b4 b5 b6 b7) =
     (\<not> b7 \<and> ((\<not> b6 \<and> b5 \<and> b4 \<and> (\<not> b3 \<or> (\<not> b2 \<and> \<not> b1)))
            \<or> (b6 \<and> \<not> b4 \<and> \<not> b3 \<and> (b0 \<or> b1 \<or> b2) \<and> \<not> (b2 \<and> b1 \<and> b0))))"
  unfolding isHexDigit_def isDigit_def code_def
  by (cases b0; cases b1; cases b2; cases b3; cases b4; cases b5; cases b6; cases b7; simp)

lemma isJsSpace_Char [code]:
  "isJsSpace (Char b0 b1 b2 b3 b4 b5 b6 b7) =
     ((\<not> b7 \<and> \<not> b6 \<and> \<not> b5 \<and> \<not> b4 \<and> b3 \<and> ((\<not> b2 \<and> (b1 \<or> b0)) \<or> (b2 \<and> \<not> b1)))
      \<or> (\<not> b6 \<and> b5 \<and> \<not> b4 \<and> \<not> b3 \<and> \<not> b2 \<and> \<not> b1 \<and> \<not> b0))"
  unfolding isJsSpace_def code_def
  by (cases b0; cases b1; cases b2; cases b3; cases b4; cases b5; cases b6; cases b7; simp)

lemma lowerChar_Char [code]:
  "lowerChar (Char b0 b1 b2 b3 b4 b5 b6 b7) =
     (if b6 \<and> \<not> b5 \<and>
         ((\<not> b7 \<and> (b0 \<or> b1 \<or> b2 \<or> b3 \<or> b4) \<and> \<not> (b4 \<and> b3 \<and> (b2 \<or> (b1 \<and> b0))))
          \<or> (b7 \<and> \<not> (b4 \<and> b3 \<and> b2 \<and> b1 \<and> b0) \<and> \<not> (b4 \<and> \<not> b3 \<and> b2 \<and> b1 \<and> b0)))
      then Char b0 b1 b2 b3 b4 True b6 b7 else Char b0 b1 b2 b3 b4 b5 b6 b7)"
proof -
  have "code (Char b0 b1 b2 b3 b4 False b6 b7) + 32 = (of_char (Char b0 b1 b2 b3 b4 True b6 b7) :: nat)"
    by (simp add: code_def)
  then have up: "char_of (code (Char b0 b1 b2 b3 b4 False b6 b7) + 32) = Char b0 b1 b2 b3 b4 True b6 b7"
    by (simp only: char_of_char)
  show ?thesis
  proof (cases b5)
    case True
    then show ?thesis
      unfolding lowerChar_def code_def
      by (cases b0; cases b1; cases b2; cases b3; cases b4; cases b6; cases b7; simp)
  next
    case False
    have "lowerChar (Char b0 b1 b2 b3 b4 False b6 b7) =
     (if b6 \<and>
         ((\<not> b7 \<and> (b0 \<or> b1 \<or> b2 \<or> b3 \<or> b4) \<and> \<not> (b4 \<and> b3 \<and> (b2 \<or> (b1 \<and> b0))))
          \<or> (b7 \<and> \<not> (b4 \<and> b3 \<and> b2 \<and> b1 \<and> b0) \<and> \<not> (b4 \<and> \<not> b3 \<and> b2 \<and> b1 \<and> b0)))
      then Char b0 b1 b2 b3 b4 True b6 b7 else Char b0 b1 b2 b3 b4 False b6 b7)"
      unfolding lowerChar_def up
      unfolding code_def
      by (cases b0; cases b1; cases b2; cases b3; cases b4; cases b6; cases b7; simp)
    then show ?thesis using False by auto
  qed
qed

subsection \<open>The scanner\<close>

text \<open>\<^verbatim>\<open>/^[0-9A-Fa-f]{6}$/\<close> behind the length test.\<close>

definition isValidHexColor :: "string \<Rightarrow> bool" where
  "isValidHexColor str = (if length str \<noteq> 6 then False else list_all isHexDigit str)"

definition isAtEndInternal :: "Lexer \<Rightarrow> bool" where
  "isAtEndInternal st = (pos st \<ge> length (source st))"

definition charAt :: "string \<Rightarrow> nat \<Rightarrow> char" where
  "charAt s i = (if i < length s then s ! i else nul)"

definition current :: "Lexer \<Rightarrow> char" where
  "current st = charAt (source st) (pos st)"

definition lookAhead :: "Lexer \<Rightarrow> nat \<Rightarrow> char" where
  "lookAhead st n = charAt (source st) (pos st + n)"

text \<open>\<^verbatim>\<open>advance\<close> returns the current character; the model reads it with
  \<^const>\<open>current\<close> before the call.\<close>

definition advance :: "Lexer \<Rightarrow> Lexer" where
  "advance st = st\<lparr>pos := pos st + 1, column := column st + 1\<rparr>"

definition match :: "Lexer \<Rightarrow> string \<Rightarrow> bool" where
  "match st expected =
     (if pos st + length expected > length (source st) then False
      else take (length expected) (drop (pos st) (source st)) = expected)"

definition consume :: "Lexer \<Rightarrow> string \<Rightarrow> Lexer" where
  "consume st str = ((advance ^^ length str) st)"

definition addToken :: "Lexer \<Rightarrow> TokenType \<Rightarrow> string \<Rightarrow> nat \<Rightarrow> Lexer" where
  "addToken st ty v startColumn =
     st\<lparr>tokens := tokens st @ [\<lparr>tok_type = ty, tok_value = v, tok_line = line st,
                                  tok_column = startColumn\<rparr>]\<rparr>"

definition addError :: "Lexer \<Rightarrow> char \<Rightarrow> Lexer" where
  "addError st c =
     st\<lparr>errors := errors st @ [\<lparr>err_char = c, err_line = line st, err_column = column st\<rparr>]\<rparr>"

function skipWhitespace :: "Lexer \<Rightarrow> Lexer" where
  "skipWhitespace st =
     (if \<not> isAtEndInternal st then
        (if current st = CHR '' '' \<or> current st = tab then skipWhitespace (advance st)
         else if current st = cr \<and> lookAhead st 1 = nl then skipWhitespace (advance st)
         else st)
      else st)"
  by pat_completeness auto
termination
  by (relation "measure (\<lambda>st. length (source st) - pos st)")
     (auto simp: isAtEndInternal_def advance_def)

declare skipWhitespace.simps [simp del]

definition updateValueContext :: "Lexer \<Rightarrow> Lexer" where
  "updateValueContext st =
     (let n = length (tokens st) in
      if n \<ge> 3 \<and> tok_type (tokens st ! (n - 1)) = EQUALS
               \<and> tok_type (tokens st ! (n - 2)) = IDENTIFIER
               \<and> tok_type (tokens st ! (n - 3)) = EQUALS
               \<and> (n = 3 \<or> tok_type (tokens st ! (n - 4)) = NEWLINE
                          \<or> tok_type (tokens st ! (n - 4)) = DOT
                          \<or> tok_type (tokens st ! (n - 4)) = CTIW_START)
      then st\<lparr>inValueContext := True, atStatementStart := False\<rparr>
      else st\<lparr>inValueContext := False, atStatementStart := False\<rparr>)"

text \<open>The index loops of the lookahead code: the first index from \<open>i\<close> on whose
  character fails \<open>P\<close>, or the length of the source.\<close>

function scanIndex :: "(char \<Rightarrow> bool) \<Rightarrow> string \<Rightarrow> nat \<Rightarrow> nat" where
  "scanIndex P src i = (if i < length src \<and> P (src ! i) then scanIndex P src (i + 1) else i)"
  by pat_completeness auto
termination
  by (relation "measure (\<lambda>(P, src, i). length src - i)") auto

declare scanIndex.simps [simp del]

definition isSpaceOrTab :: "char \<Rightarrow> bool" where
  "isSpaceOrTab c = (c = CHR '' '' \<or> c = tab)"

text \<open>After an identifier that ends at \<open>i\<close> with \<open>=\<close>: is there content after the
  \<open>=\<close> (the loop over \<open>j\<close> in \<^verbatim>\<open>looksLikeAttribute\<close>, over \<open>m\<close> in
  \<^verbatim>\<open>scanString\<close>)?\<close>

definition contentAfterEquals :: "string \<Rightarrow> nat \<Rightarrow> bool" where
  "contentAfterEquals src i =
     (let j = scanIndex isSpaceOrTab src (i + 1) in
      \<not> (j \<ge> length src \<or> src ! j = CHR ''='' \<or> src ! j = nl))"

definition looksLikeAttributeAt :: "string \<Rightarrow> nat \<Rightarrow> bool" where
  "looksLikeAttributeAt src p =
     (let i = scanIndex isAlphaNumericOrHyphen src p in
      if i < length src then
        (if src ! i = CHR '':'' then True
         else if src ! i = CHR ''='' then contentAfterEquals src i
         else False)
      else False)"

definition looksLikeAttribute :: "Lexer \<Rightarrow> bool" where
  "looksLikeAttribute st = looksLikeAttributeAt (source st) (pos st)"

text \<open>The closing \<open>=\<close> search of \<^verbatim>\<open>shouldScanString\<close>: an \<open>=\<close> before the next
  newline.\<close>

function equalsOnLine :: "string \<Rightarrow> nat \<Rightarrow> bool" where
  "equalsOnLine src i =
     (if i < length src then
        (if src ! i = CHR ''='' then True
         else if src ! i = nl then False
         else equalsOnLine src (i + 1))
      else False)"
  by pat_completeness auto
termination
  by (relation "measure (\<lambda>(src, i). length src - i)") auto

declare equalsOnLine.simps [simp del]

definition shouldScanString :: "Lexer \<Rightarrow> bool" where
  "shouldScanString st =
     (if \<not> inValueContext st then False
      else if current st = CHR ''='' then False
      else if current st = nl then False
      else if isAlpha (current st) then \<not> looksLikeAttribute st
      else equalsOnLine (source st) (pos st))"

text \<open>The lookahead of \<^verbatim>\<open>scanString\<close> at a space or tab at \<open>p\<close>: true where the
  source breaks out of the loop because a real attribute starts after the blank.\<close>

definition attributeAfterBlank :: "string \<Rightarrow> nat \<Rightarrow> bool" where
  "attributeAfterBlank src p =
     (let j = scanIndex isSpaceOrTab src (p + 1) in
      if j < length src \<and> isAlpha (src ! j) then
        (let k = scanIndex isAlphaNumericOrHyphen src j in
         if k < length src then
           (if src ! k = CHR '':'' then True
            else if src ! k = CHR ''='' then
              (let m = scanIndex isSpaceOrTab src (k + 1) in
               m < length src \<and> src ! m \<noteq> CHR ''='' \<and> src ! m \<noteq> nl)
            else False)
         else False)
      else False)"

function scanString_loop :: "Lexer \<Rightarrow> string \<Rightarrow> Lexer \<times> string" where
  "scanString_loop st v =
     (if \<not> isAtEndInternal st \<and> current st \<noteq> nl then
        (if current st = CHR ''='' then (st, v)
         else if (current st = CHR '' '' \<or> current st = tab)
                 \<and> attributeAfterBlank (source st) (pos st) then (st, v)
         else scanString_loop (advance st) (v @ [current st]))
      else (st, v))"
  by pat_completeness auto
termination
  by (relation "measure (\<lambda>(st, v). length (source st) - pos st)")
     (auto simp: isAtEndInternal_def advance_def)

declare scanString_loop.simps [simp del]

definition scanString :: "Lexer \<Rightarrow> nat \<Rightarrow> Lexer" where
  "scanString st0 startColumn =
     (let (st, v) = scanString_loop st0 [];
          val = trim v;
          st1 = (if length val > 0 then addToken st STRING val startColumn else st)
      in st1\<lparr>inValueContext := False\<rparr>)"

text \<open>\<^verbatim>\<open>while (!atEnd && P(current())) value += advance()\<close>, the loop of both
  alphanumeric scanners.\<close>

function scanWhile :: "(char \<Rightarrow> bool) \<Rightarrow> Lexer \<Rightarrow> string \<Rightarrow> Lexer \<times> string" where
  "scanWhile P st v =
     (if \<not> isAtEndInternal st \<and> P (current st)
      then scanWhile P (advance st) (v @ [current st]) else (st, v))"
  by pat_completeness auto
termination
  by (relation "measure (\<lambda>(P, st, v). length (source st) - pos st)")
     (auto simp: isAtEndInternal_def advance_def)

declare scanWhile.simps [simp del]

definition scanIdentifierOrHexColor :: "Lexer \<Rightarrow> nat \<Rightarrow> Lexer" where
  "scanIdentifierOrHexColor st0 startColumn =
     (let (st, v) = scanWhile isAlphaNumericOrHyphen st0 [];
          st1 = (if length v = 6 \<and> isValidHexColor v then addToken st HEX_COLOR v startColumn
                 else addToken st IDENTIFIER v startColumn)
      in st1\<lparr>inValueContext := False\<rparr>)"

definition scanNumberOrHexColor :: "Lexer \<Rightarrow> nat \<Rightarrow> Lexer" where
  "scanNumberOrHexColor st0 startColumn =
     (let (st, v) = scanWhile isHexDigit st0 [];
          st1 = (if length v = 6 \<and> isValidHexColor v then addToken st HEX_COLOR v startColumn
                 else addToken st NUMBER v startColumn)
      in st1\<lparr>inValueContext := False\<rparr>)"

definition scanToken :: "Lexer \<Rightarrow> Lexer" where
  "scanToken st0 =
     (let st = skipWhitespace st0 in
      if isAtEndInternal st then st
      else
        let startColumn = column st; char = current st in
        if match st ''==CTIW=='' then
          (let st1 = consume st ''==CTIW=='';
               hasStart = list_ex (\<lambda>t. tok_type t = CTIW_START) (tokens st1);
               st2 = addToken st1 (if hasStart then CTIW_END else CTIW_START) ''==CTIW=='' startColumn
           in st2\<lparr>inValueContext := False, atStatementStart := False\<rparr>)
        else if match st ''=='' \<and> \<not> match st ''==CTIW=='' then
          (let st2 = addToken (consume st ''=='') DOUBLE_EQUALS ''=='' startColumn
           in st2\<lparr>inValueContext := False, atStatementStart := False\<rparr>)
        else if char = CHR ''='' then
          updateValueContext (addToken (advance st) EQUALS ''='' startColumn)
        else if char = CHR '':'' then
          (addToken (advance st) COLON '':'' startColumn)
             \<lparr>inValueContext := False, atStatementStart := False\<rparr>
        else if char = CHR ''.'' then
          (addToken (advance st) DOT ''.'' startColumn)\<lparr>inValueContext := False\<rparr>
        else if char = CHR ''('' then
          (addToken (advance st) LPAREN ''('' startColumn)
             \<lparr>inValueContext := False, atStatementStart := False\<rparr>
        else if char = CHR '')'' then
          (addToken (advance st) RPAREN '')'' startColumn)
             \<lparr>inValueContext := False, atStatementStart := False\<rparr>
        else if char = nl then
          (let st2 = addToken (advance st) NEWLINE [nl] startColumn
           in st2\<lparr>line := line st2 + 1, column := 1, inValueContext := False,
                   atStatementStart := True\<rparr>)
        else if shouldScanString st then scanString st startColumn
        else if isAlpha char then scanIdentifierOrHexColor st startColumn
        else if isDigit char then scanNumberOrHexColor st startColumn
        else advance (addError st char))"

subsection \<open>The scanning loop terminates\<close>

text \<open>Every call of \<^verbatim>\<open>scanToken\<close> before the end of the source consumes at least one
  character, which is what lets the loop of \<^verbatim>\<open>tokenize\<close> be defined as a total
  function.\<close>

lemma skipWhitespace_source [simp]: "source (skipWhitespace st) = source st"
  by (induction st rule: skipWhitespace.induct)
     (subst skipWhitespace.simps, auto simp: advance_def)



lemma scanString_loop_source: "source (fst (scanString_loop st v)) = source st"
proof (induction st v rule: scanString_loop.induct)
  case (1 st v)
  show ?case
    by (subst scanString_loop.simps) (use 1 in \<open>auto simp: advance_def\<close>)
qed



lemma scanWhile_source: "source (fst (scanWhile P st v)) = source st"
proof (induction P st v rule: scanWhile.induct)
  case (1 P st v)
  show ?case
    by (subst scanWhile.simps) (use 1 in \<open>auto simp: advance_def\<close>)
qed



lemma funpow_advance_pos: "pos ((advance ^^ n) st) = pos st + n"
  by (induction n) (auto simp: advance_def)
lemma funpow_advance_source: "source ((advance ^^ n) st) = source st"
  by (induction n) (auto simp: advance_def)

lemma consume_pos [simp]: "pos (consume st s) = pos st + length s"
  by (simp add: consume_def funpow_advance_pos)
lemma consume_source [simp]: "source (consume st s) = source st"
  by (simp add: consume_def funpow_advance_source)

lemma scanString_loop_sourceD: "scanString_loop st v = (st', v') \<Longrightarrow> source st' = source st"
  using scanString_loop_source[of st v] by simp

lemma scanWhile_sourceD: "scanWhile P st v = (st', v') \<Longrightarrow> source st' = source st"
  using scanWhile_source[of P st v] by simp

lemma scanString_source [simp]: "source (scanString st c) = source st"
  by (auto simp: scanString_def addToken_def Let_def split: prod.splits dest: scanString_loop_sourceD)


lemma scanIdentifierOrHexColor_source [simp]: "source (scanIdentifierOrHexColor st c) = source st"
  by (auto simp: scanIdentifierOrHexColor_def addToken_def Let_def split: prod.splits dest: scanWhile_sourceD)


lemma scanNumberOrHexColor_source [simp]: "source (scanNumberOrHexColor st c) = source st"
  by (auto simp: scanNumberOrHexColor_def addToken_def Let_def split: prod.splits dest: scanWhile_sourceD)


lemma scanToken_source [simp]: "source (scanToken st) = source st"
  by (simp add: scanToken_def Let_def addToken_def advance_def
      updateValueContext_def addError_def)







text \<open>The specification's wording for the attribute lookahead: after the \<open>=\<close> that ends
  an identifier, non-whitespace content follows before the next \<open>=\<close>, newline or end of
  input. White space is space or tab, as in the lexer.\<close>

definition contentFollows :: "string \<Rightarrow> bool" where
  "contentFollows rest =
     list_ex (\<lambda>c. \<not> isSpaceOrTab c) (takeWhile (\<lambda>c. c \<noteq> CHR ''='' \<and> c \<noteq> nl) rest)"



section \<open>Syntax tree (ast.ts)\<close>

text \<open>
  Modelled from the spec: \<^verbatim>\<open>ast.ts\<close> is not among the sources. The node shapes follow
  section 3 of the specification and the way \<^verbatim>\<open>parser.ts\<close>, \<^verbatim>\<open>codegen.ts\<close> and the
  tests build and read nodes: \<^verbatim>\<open>createElement(type, {properties, content, indent,
  location})\<close> yields an Element whose \<^verbatim>\<open>children\<close> is the empty array unless given,
  \<^verbatim>\<open>createSpecial\<close>, \<^verbatim>\<open>createProperty\<close> and \<^verbatim>\<open>createDocument\<close> store their
  arguments, and \<^verbatim>\<open>isElementNode\<close>/\<^verbatim>\<open>isSpecialNode\<close> test the node's tag.

  A property value is a string, as the parser produces it. The properties object is the
  list of its entries in the order of \<^verbatim>\<open>Object.entries\<close>. A number (the value of a
  document property, the font size of the metadata) is represented by its canonical
  rendering \<^verbatim>\<open>String(n)\<close>.
\<close>

type_synonym location = "nat \<times> nat \<times> nat \<times> nat"

definition createLocation :: "nat \<Rightarrow> nat \<Rightarrow> nat \<Rightarrow> nat \<Rightarrow> location" where
  "createLocation startLine startColumn endLine endColumn =
     (startLine, startColumn, endLine, endColumn)"

datatype pvalue = PStr string | PNum string

datatype node =
    Element (elementType: string) (properties: "(string \<times> string) list")
            (children: "node list") (content: "string option") (indent: nat)
            (location: location)
  | Special (specialType: string) location
  | Property string pvalue location
  | ErrorNode string string location

record DocumentMetadata =
  title :: "string option"
  language :: "string option"
  fontSize :: "string option"

record DocumentNode =
  doc_children :: "node list"
  doc_metadata :: DocumentMetadata
  doc_location :: location

definition createElement ::
  "string \<Rightarrow> (string \<times> string) list \<Rightarrow> string option \<Rightarrow> nat \<Rightarrow> location \<Rightarrow> node" where
  "createElement ty props cont ind loc = Element ty props [] cont ind loc"

definition createSpecial :: "string \<Rightarrow> location \<Rightarrow> node" where
  "createSpecial ty loc = Special ty loc"

definition createProperty :: "string \<Rightarrow> pvalue \<Rightarrow> location \<Rightarrow> node" where
  "createProperty name v loc = Property name v loc"

definition createDocument :: "node list \<Rightarrow> DocumentMetadata \<Rightarrow> location \<Rightarrow> DocumentNode" where
  "createDocument ch meta loc = \<lparr>doc_children = ch, doc_metadata = meta, doc_location = loc\<rparr>"

fun isElementNode :: "node \<Rightarrow> bool" where
  "isElementNode (Element _ _ _ _ _ _) = True"
| "isElementNode _ = False"

fun isSpecialNode :: "node \<Rightarrow> bool" where
  "isSpecialNode (Special _ _) = True"
| "isSpecialNode _ = False"

subsection \<open>Property objects\<close>

text \<open>\<^verbatim>\<open>properties[k] = v\<close> on a plain object: an existing key keeps its place, a new
  array-index key (a canonical decimal below \<open>2^32 - 1\<close>) goes among the index keys in
  ascending order, any other new key goes to the end; assigning a string to
  \<^verbatim>\<open>__proto__\<close> creates nothing.\<close>

definition digitsValue :: "string \<Rightarrow> nat" where
  "digitsValue s = foldl (\<lambda>a c. 10 * a + (code c - 48)) 0 s"

definition isArrayIndex :: "string \<Rightarrow> bool" where
  "isArrayIndex k = (k \<noteq> [] \<and> list_all isDigit k \<and> (k = ''0'' \<or> hd k \<noteq> CHR ''0'')
                     \<and> digitsValue k < 4294967295)"

fun insertIndex :: "string \<Rightarrow> string \<Rightarrow> (string \<times> string) list \<Rightarrow> (string \<times> string) list" where
  "insertIndex k v [] = [(k, v)]"
| "insertIndex k v ((k', v') # ps) =
     (if isArrayIndex k' \<and> digitsValue k' < digitsValue k then (k', v') # insertIndex k v ps
      else (k, v) # (k', v') # ps)"

definition setProperty :: "(string \<times> string) list \<Rightarrow> string \<Rightarrow> string \<Rightarrow> (string \<times> string) list" where
  "setProperty props k v =
     (if k = ''__proto__'' then props
      else if map_of props k \<noteq> None then map (\<lambda>(k', v'). if k' = k then (k', v) else (k', v')) props
      else if isArrayIndex k then insertIndex k v props
      else props @ [(k, v)])"

section \<open>Parser (parser.ts)\<close>

text \<open>
  A parse error is a message and a line. The model keeps the kind of the message:
  \<^item> \<open>MissingHeader\<close>: "Oops! Your CTIW code needs to start with =CTIW=";
  \<^item> \<open>MissingFooter\<close>: "Don't forget to end your code with ==CTIW==";
  \<^item> \<open>UnknownStatement\<close>: "Hmm, I don't understand this line. Lines should start with =";
  \<^item> \<open>UnknownSpecialKind\<close>: "I don't know this special element";
  \<^item> \<open>ExpectedEquals\<close>: "Expected = after the name";
  \<^item> \<open>UnknownElementKind name\<close>: "Hmm, I don't know what 'name' is. Try: ...".

  \<open>UnmatchedContainer\<close> is the kind the specification lists for a container that is
  never closed; \<^verbatim>\<open>parser.ts\<close> has no message of that kind.
\<close>

datatype ErrorKind =
    MissingHeader | MissingFooter | UnknownStatement | UnknownSpecialKind
  | ExpectedEquals | UnknownElementKind string | UnmatchedContainer

record ParseError =
  kind :: ErrorKind
  pe_line :: nat

record ParseResult =
  document :: DocumentNode
  parse_errors :: "ParseError list"

text \<open>The fields of the class \<^verbatim>\<open>Parser\<close>.\<close>

record Parser =
  lines :: "string list"
  currentLine :: nat
  perrors :: "ParseError list"
  metadata :: DocumentMetadata
  body :: "node list"

text \<open>An open container: the element, held by reference in the source, is the path of
  child indices that leads to it from the top-level list \<^const>\<open>body\<close>. Children are only
  ever appended, so a path keeps denoting the same element.\<close>

record Frame =
  frame_element :: "nat list"
  frame_indent :: nat

definition new_Parser :: "string \<Rightarrow> Parser" where
  "new_Parser src = \<lparr>lines = split nl src, currentLine = 0, perrors = [],
                      metadata = \<lparr>title = None, language = None, fontSize = None\<rparr>, body = []\<rparr>"

definition DOC_PROPERTIES :: "string list" where
  "DOC_PROPERTIES = [''language'', ''font-size'']"

text \<open>\<^verbatim>\<open>addError(message, line?)\<close>: the line defaults to \<open>currentLine + 1\<close>.\<close>

definition addParseError :: "Parser \<Rightarrow> ErrorKind \<Rightarrow> nat option \<Rightarrow> Parser" where
  "addParseError st k ln =
     st\<lparr>perrors := perrors st @
           [\<lparr>kind = k, pe_line = (case ln of Some l \<Rightarrow> l | None \<Rightarrow> currentLine st + 1)\<rparr>]\<rparr>"

function skipEmptyLines :: "Parser \<Rightarrow> Parser" where
  "skipEmptyLines st =
     (if currentLine st < length (lines st) \<and> trim (lines st ! currentLine st) = []
      then skipEmptyLines (st\<lparr>currentLine := currentLine st + 1\<rparr>) else st)"
  by pat_completeness auto
termination
  by (relation "measure (\<lambda>st. length (lines st) - currentLine st)") auto

declare skipEmptyLines.simps [simp del]

definition parseHeader :: "Parser \<Rightarrow> bool \<times> Parser" where
  "parseHeader st0 =
     (let st = skipEmptyLines st0 in
      if currentLine st \<ge> length (lines st) then (False, st)
      else if trim (lines st ! currentLine st) = ''=CTIW=''
           then (True, st\<lparr>currentLine := currentLine st + 1\<rparr>)
           else (False, st))"

definition parseFooter :: "Parser \<Rightarrow> bool \<times> Parser" where
  "parseFooter st0 =
     (let st = skipEmptyLines st0 in
      if currentLine st \<ge> length (lines st) then (False, st)
      else if trim (lines st ! currentLine st) = ''==CTIW==''
           then (True, st\<lparr>currentLine := currentLine st + 1\<rparr>)
           else (False, st))"

text \<open>\<^verbatim>\<open>parseIndentation\<close>: each pair of dots is one level.\<close>

definition parseIndentation :: "string \<Rightarrow> nat \<times> string" where
  "parseIndentation ln =
     (let spaceTrimmed = trimStart ln;
          dots = length (takeWhile (\<lambda>c. c = CHR ''.'') spaceTrimmed)
      in (dots div 2, trim (drop dots spaceTrimmed)))"

text \<open>\<^verbatim>\<open>tokenizeElementLine\<close>: the parts between single spaces, trimmed, the empty ones
  dropped.\<close>

fun tokenizeElementLine_loop :: "string \<Rightarrow> string \<Rightarrow> string list \<Rightarrow> string list" where
  "tokenizeElementLine_loop [] cur parts =
     (if trim cur \<noteq> [] then parts @ [trim cur] else parts)"
| "tokenizeElementLine_loop (c # cs) cur parts =
     (if c = CHR '' ''
      then tokenizeElementLine_loop cs [] (if trim cur \<noteq> [] then parts @ [trim cur] else parts)
      else tokenizeElementLine_loop cs (cur @ [c]) parts)"

definition tokenizeElementLine :: "string \<Rightarrow> string list" where
  "tokenizeElementLine ln = tokenizeElementLine_loop ln [] []"

text \<open>\<^verbatim>\<open>parseAttribute\<close>: \<open>None\<close> is the \<^verbatim>\<open>null\<close> name. \<^verbatim>\<open>split(sep, 2)\<close> keeps the
  first two pieces.\<close>

definition parseAttribute :: "string \<Rightarrow> string option \<times> string" where
  "parseAttribute part0 =
     (let part = (if endsWith ''='' part0 then take (length part0 - 1) part0 else part0) in
      if CHR '':'' \<in> set part then
        (case split (CHR '':'') part of
           name # v # _ \<Rightarrow> (Some (trim name), trim v)
         | _ \<Rightarrow> (None, []))
      else if CHR ''='' \<in> set part then
        (case split (CHR ''='') part of
           name # v # _ \<Rightarrow> (Some (trim name), trim v)
         | _ \<Rightarrow> (None, []))
      else (None, []))"

text \<open>The loop over the parts: \<^verbatim>\<open>if (propName) properties[propName] = propValue\<close>.\<close>

fun addAttributes :: "(string \<times> string) list \<Rightarrow> string list \<Rightarrow> (string \<times> string) list" where
  "addAttributes props [] = props"
| "addAttributes props (part # parts) =
     (case parseAttribute part of
        (Some propName, propValue) \<Rightarrow>
          addAttributes (if propName \<noteq> [] then setProperty props propName propValue else props) parts
      | (None, _) \<Rightarrow> addAttributes props parts)"

text \<open>The search for the end of the content: the first \<open>=\<close> that is the last character
  or is followed by a space.\<close>

function contentEndFrom :: "string \<Rightarrow> nat \<Rightarrow> nat option" where
  "contentEndFrom remaining i =
     (if i < length remaining then
        (if remaining ! i = CHR ''='' \<and> (i = length remaining - 1 \<or> remaining ! (i + 1) = CHR '' '')
         then Some i else contentEndFrom remaining (i + 1))
      else None)"
  by pat_completeness auto
termination
  by (relation "measure (\<lambda>(remaining, i). length remaining - i)") auto

declare contentEndFrom.simps [simp del]

definition parseElement :: "string \<Rightarrow> string \<Rightarrow> nat \<Rightarrow> node" where
  "parseElement elemType remaining lineNumber =
     (if remaining = [] then
        createElement elemType [] None 0 (createLocation lineNumber 1 lineNumber 1)
      else if startsWith '' '' remaining then
        createElement elemType (addAttributes [] (tokenizeElementLine (trim remaining))) None 0
          (createLocation lineNumber 1 lineNumber (length remaining))
      else
        (case contentEndFrom remaining 0 of
           Some contentEnd \<Rightarrow>
             createElement elemType
               (addAttributes [] (tokenizeElementLine (trim (drop (contentEnd + 1) remaining))))
               (Some (trim (take contentEnd remaining))) 0
               (createLocation lineNumber 1 lineNumber (length remaining))
         | None \<Rightarrow>
             createElement elemType [] (Some (trim remaining)) 0
               (createLocation lineNumber 1 lineNumber (length remaining))))"

text \<open>
  Two functions the parser calls are not in \<^verbatim>\<open>parser.ts\<close>: \<^verbatim>\<open>isValidElementType\<close> (of the
  absent \<^verbatim>\<open>ast.ts\<close>) and JavaScript's \<^verbatim>\<open>Number\<close>. Both are parameters of the model:
  \<open>valid\<close> is \<^verbatim>\<open>isValidElementType\<close>, and \<open>num s\<close> is the canonical rendering
  \<^verbatim>\<open>String(Number(s))\<close>, which is \<open>''NaN''\<close> exactly when \<^verbatim>\<open>isNaN(Number(s))\<close>.
\<close>

definition parseDocProperty :: "(string \<Rightarrow> string) \<Rightarrow> string \<Rightarrow> string \<Rightarrow> nat \<Rightarrow> node" where
  "parseDocProperty num name remaining lineNumber =
     (let v = (case indexOf (CHR ''='') remaining of
                 Some valueEnd \<Rightarrow> trim (take valueEnd remaining)
               | None \<Rightarrow> trim remaining)
      in createProperty name (if num v \<noteq> ''NaN'' \<and> v \<noteq> [] then PNum (num v) else PStr v)
           (createLocation lineNumber 1 lineNumber (length remaining)))"

text \<open>\<^verbatim>\<open>/^=\((\w+)\)=$/\<close>: the captured word, if the line matches.\<close>

definition isWordChar :: "char \<Rightarrow> bool" where
  "isWordChar c = (isAlpha c \<or> isDigit c \<or> c = CHR ''_'')"

definition matchSpecial :: "string \<Rightarrow> string option" where
  "matchSpecial ln =
     (if startsWith ''=('' ln \<and> endsWith '')='' ln then
        (let w = slice 2 (length ln - 2) ln in
         if w \<noteq> [] \<and> list_all isWordChar w then Some w else None)
      else None)"

definition parseSpecialElement :: "Parser \<Rightarrow> string \<Rightarrow> nat \<Rightarrow> node option \<times> Parser" where
  "parseSpecialElement st ln lineNumber =
     (case matchSpecial ln of
        Some w \<Rightarrow>
          if toLowerCase w = ''time''
          then (Some (createSpecial ''time'' (createLocation lineNumber 1 lineNumber (length ln))), st)
          else (None, addParseError st UnknownSpecialKind (Some lineNumber))
      | None \<Rightarrow> (None, addParseError st UnknownSpecialKind (Some lineNumber)))"

text \<open>\<^verbatim>\<open>!this.metadata.title\<close>: unset or the empty string.\<close>

definition titleUnset :: "Parser \<Rightarrow> bool" where
  "titleUnset st = (case title (metadata st) of None \<Rightarrow> True | Some t \<Rightarrow> t = [])"

definition parsePropertyOrElement ::
  "(string \<Rightarrow> bool) \<Rightarrow> (string \<Rightarrow> string) \<Rightarrow> Parser \<Rightarrow> string \<Rightarrow> nat \<Rightarrow> node option \<times> Parser" where
  "parsePropertyOrElement valid num st ln lineNumber =
     (let rest = drop 1 ln in
      case indexOf (CHR ''='') rest of
        None \<Rightarrow> (None, addParseError st ExpectedEquals (Some lineNumber))
      | Some nameEnd \<Rightarrow>
          (let name = toLowerCase (trim (take nameEnd rest));
               remaining = drop (nameEnd + 1) rest
           in if name \<in> set DOC_PROPERTIES then
                (Some (parseDocProperty num name remaining lineNumber), st)
              else if name = ''title'' then
                (let st1 = (if titleUnset st then
                              (let v = (case indexOf (CHR ''='') remaining of
                                          Some valueEnd \<Rightarrow> trim (take valueEnd remaining)
                                        | None \<Rightarrow> trim remaining)
                               in st\<lparr>metadata := (metadata st)\<lparr>title := Some v\<rparr>\<rparr>)
                            else st)
                 in (Some (parseElement ''title'' remaining lineNumber), st1))
              else if valid name then
                (Some (parseElement name remaining lineNumber), st)
              else (None, addParseError st (UnknownElementKind name) (Some lineNumber))))"

definition parseStatement ::
  "(string \<Rightarrow> bool) \<Rightarrow> (string \<Rightarrow> string) \<Rightarrow> Parser \<Rightarrow> string \<Rightarrow> nat \<Rightarrow> node option \<times> Parser" where
  "parseStatement valid num st ln lineNumber =
     (if \<not> startsWith ''='' ln then (None, addParseError st UnknownStatement (Some lineNumber))
      else if startsWith ''=('' ln \<and> includesStr '')='' ln then parseSpecialElement st ln lineNumber
      else parsePropertyOrElement valid num st ln lineNumber)"

subsection \<open>The body loop\<close>

text \<open>Reading and writing through the reference held by a frame.\<close>

fun nodeAt :: "node list \<Rightarrow> nat list \<Rightarrow> node option" where
  "nodeAt forest [] = None"
| "nodeAt forest [i] = (if i < length forest then Some (forest ! i) else None)"
| "nodeAt forest (i # j # p) =
     (if i < length forest then
        (case forest ! i of Element _ _ ch _ _ _ \<Rightarrow> nodeAt ch (j # p) | _ \<Rightarrow> None)
      else None)"

fun addChild :: "node \<Rightarrow> node \<Rightarrow> node" where
  "addChild (Element ty ps ch c ind loc) n = Element ty ps (ch @ [n]) c ind loc"
| "addChild other n = other"

text \<open>\<^verbatim>\<open>parent.children.push(n)\<close> for the element at a path.\<close>

fun pushChild :: "nat list \<Rightarrow> node \<Rightarrow> node list \<Rightarrow> node list" where
  "pushChild [] n forest = forest"
| "pushChild [i] n forest = (if i < length forest then forest[i := addChild (forest ! i) n] else forest)"
| "pushChild (i # j # p) n forest =
     (if i < length forest then
        forest[i := (case forest ! i of
                       Element ty ps ch c ind loc \<Rightarrow> Element ty ps (pushChild (j # p) n ch) c ind loc
                     | other \<Rightarrow> other)]
      else forest)"

definition childCount :: "node list \<Rightarrow> nat list \<Rightarrow> nat" where
  "childCount forest p = (case nodeAt forest p of Some (Element _ _ ch _ _ _) \<Rightarrow> length ch | _ \<Rightarrow> 0)"

text \<open>\<^verbatim>\<open>element.elementType === 'divide'\<close>, on a node and through a reference.\<close>

fun isDivideElement :: "node \<Rightarrow> bool" where
  "isDivideElement (Element ty _ _ _ _ _) = (ty = ''divide'')"
| "isDivideElement _ = False"

definition isDivideAt :: "node list \<Rightarrow> nat list \<Rightarrow> bool" where
  "isDivideAt forest p = (case nodeAt forest p of Some x \<Rightarrow> isDivideElement x | None \<Rightarrow> False)"

text \<open>The inner \<^verbatim>\<open>while\<close> of \<^verbatim>\<open>parseBody\<close>: frames at the same or a deeper indentation are
  popped unless they are \<open>divide\<close> elements.\<close>

function popClosed :: "node list \<Rightarrow> Frame list \<Rightarrow> nat \<Rightarrow> Frame list" where
  "popClosed forest stack ind =
     (if stack \<noteq> [] \<and> frame_indent (last stack) \<ge> ind then
        (if \<not> isDivideAt forest (frame_element (last stack))
         then popClosed forest (butlast stack) ind else stack)
      else stack)"
  by pat_completeness auto
termination
  by (relation "measure (\<lambda>(forest, stack, ind). length stack)") auto

declare popClosed.simps [simp del]

text \<open>What \<^verbatim>\<open>parseBody\<close> does with a parsed statement.\<close>

definition placeNode :: "Parser \<Rightarrow> Frame list \<Rightarrow> nat \<Rightarrow> node \<Rightarrow> Parser \<times> Frame list" where
  "placeNode st stack0 ind parsed =
     (let stack = popClosed (body st) stack0 ind in
      case parsed of
        Property name v loc \<Rightarrow>
          (let strv = (case v of PStr s \<Rightarrow> s | PNum r \<Rightarrow> r) in
           if name = ''language'' then
             (st\<lparr>metadata := (metadata st)\<lparr>language := Some strv\<rparr>\<rparr>, stack)
           else if name = ''font-size'' then
             (st\<lparr>metadata := (metadata st)\<lparr>fontSize := Some strv\<rparr>\<rparr>, stack)
           else if name = ''title'' then
             (st\<lparr>metadata := (metadata st)\<lparr>title := Some strv\<rparr>\<rparr>, stack)
           else (st, stack))
      | ErrorNode _ _ _ \<Rightarrow> (st, stack)
      | _ \<Rightarrow>
          (let inside = (stack \<noteq> [] \<and> ind > 0);
               path = (if inside
                       then frame_element (last stack) @ [childCount (body st) (frame_element (last stack))]
                       else [length (body st)]);
               st1 = (if inside then st\<lparr>body := pushChild (frame_element (last stack)) parsed (body st)\<rparr>
                      else st\<lparr>body := body st @ [parsed]\<rparr>)
           in (st1, if isDivideElement parsed
                    then stack @ [\<lparr>frame_element = path, frame_indent = ind\<rparr>] else stack)))"

text \<open>One turn of the outer loop on a line that is neither blank nor the footer; the
  caller increments \<^const>\<open>currentLine\<close>.\<close>

definition parseBody_line ::
  "(string \<Rightarrow> bool) \<Rightarrow> (string \<Rightarrow> string) \<Rightarrow> Parser \<Rightarrow> Frame list \<Rightarrow> string \<Rightarrow> Parser \<times> Frame list" where
  "parseBody_line valid num st stack rawLine =
     (let (ind, cont) = parseIndentation rawLine in
      if cont = ''=divide='' \<and> stack \<noteq> [] then (st, butlast stack)
      else
        (case parseStatement valid num st cont (currentLine st + 1) of
           (Some parsed, st1) \<Rightarrow> placeNode st1 stack ind parsed
         | (None, st1) \<Rightarrow> (st1, stack)))"

text \<open>A turn of the loop changes neither the lines nor the line counter.\<close>

lemma addParseError_lines [simp]:
  "lines (addParseError st k ln) = lines st" "currentLine (addParseError st k ln) = currentLine st"
  by (simp_all add: addParseError_def)

lemma parseStatement_lines:
  "parseStatement valid num st ln n = (r, st') \<Longrightarrow>
     lines st' = lines st \<and> currentLine st' = currentLine st"
  by (auto simp: parseStatement_def parseSpecialElement_def parsePropertyOrElement_def Let_def
      split: if_splits option.splits)

lemma placeNode_lines:
  "placeNode st stack ind parsed = (st', stack') \<Longrightarrow>
     lines st' = lines st \<and> currentLine st' = currentLine st"
  by (auto simp: placeNode_def Let_def split: node.splits if_splits)

lemma parseBody_line_lines:
  "parseBody_line valid num st stack rawLine = (st', stack') \<Longrightarrow>
     lines st' = lines st \<and> currentLine st' = currentLine st"
proof -
  assume a: "parseBody_line valid num st stack rawLine = (st', stack')"
  obtain ind cont where pi: "parseIndentation rawLine = (ind, cont)"
    by (cases "parseIndentation rawLine")
  obtain r st1 where ps: "parseStatement valid num st cont (currentLine st + 1) = (r, st1)"
    by (cases "parseStatement valid num st cont (currentLine st + 1)")
  have l1: "lines st1 = lines st \<and> currentLine st1 = currentLine st"
    by (rule parseStatement_lines[OF ps])
  show ?thesis
  proof (cases "cont = ''=divide='' \<and> stack \<noteq> []")
    case True
    then show ?thesis using a pi by (simp add: parseBody_line_def)
  next
    case False
    show ?thesis
    proof (cases r)
      case None
      then show ?thesis using a pi ps False l1 by (auto simp: parseBody_line_def)
    next
      case (Some parsed)
      then have "placeNode st1 stack ind parsed = (st', stack')"
        using a pi ps False by (auto simp: parseBody_line_def)
      from placeNode_lines[OF this] l1 show ?thesis by simp
    qed
  qed
qed

function parseBody_loop ::
  "(string \<Rightarrow> bool) \<Rightarrow> (string \<Rightarrow> string) \<Rightarrow> Parser \<Rightarrow> Frame list \<Rightarrow> Parser \<times> Frame list" where
  "parseBody_loop valid num st stack =
     (if currentLine st < length (lines st) then
        (if trim (lines st ! currentLine st) = ''==CTIW=='' then (st, stack)
         else if trim (lines st ! currentLine st) = [] then
           parseBody_loop valid num (st\<lparr>currentLine := currentLine st + 1\<rparr>) stack
         else
           (case parseBody_line valid num st stack (lines st ! currentLine st) of
              (st1, stack1) \<Rightarrow>
                parseBody_loop valid num (st1\<lparr>currentLine := currentLine st1 + 1\<rparr>) stack1))
      else (st, stack))"
  by pat_completeness auto
termination
  by (relation "measure (\<lambda>(valid, num, st, stack). length (lines st) - currentLine st)")
     (auto dest!: parseBody_line_lines[OF sym])

declare parseBody_loop.simps [simp del]

text \<open>\<^verbatim>\<open>parseBody\<close> drops its container stack when it returns.\<close>

definition parseBody :: "(string \<Rightarrow> bool) \<Rightarrow> (string \<Rightarrow> string) \<Rightarrow> Parser \<Rightarrow> Parser" where
  "parseBody valid num st = fst (parseBody_loop valid num st [])"

text \<open>The method \<^verbatim>\<open>Parser.parse\<close> and the exported \<^verbatim>\<open>parse(source)\<close>, which builds a new
  \<^verbatim>\<open>Parser\<close> for every call.\<close>

definition Parser_parse :: "(string \<Rightarrow> bool) \<Rightarrow> (string \<Rightarrow> string) \<Rightarrow> Parser \<Rightarrow> ParseResult" where
  "Parser_parse valid num st0 =
     (let (ok, st1) = parseHeader st0;
          st2 = (if \<not> ok then addParseError st1 MissingHeader None else st1);
          st3 = parseBody valid num st2;
          (ok2, st4) = parseFooter st3;
          st5 = (if \<not> ok2 then addParseError st4 MissingFooter None else st4)
      in \<lparr>document = createDocument (body st5) (metadata st5)
                        (createLocation 1 1 (length (lines st5)) 1),
          parse_errors = perrors st5\<rparr>)"

definition parse :: "(string \<Rightarrow> bool) \<Rightarrow> (string \<Rightarrow> string) \<Rightarrow> string \<Rightarrow> ParseResult" where
  "parse valid num src = Parser_parse valid num (new_Parser src)"

text \<open>The frames still open when the body loop of \<^verbatim>\<open>parse\<close> stops.\<close>

definition openFrames :: "(string \<Rightarrow> bool) \<Rightarrow> (string \<Rightarrow> string) \<Rightarrow> string \<Rightarrow> Frame list" where
  "openFrames valid num src =
     (let (ok, st1) = parseHeader (new_Parser src);
          st2 = (if \<not> ok then addParseError st1 MissingHeader None else st1)
      in snd (parseBody_loop valid num st2 []))"

subsection \<open>Instances of the two parameters\<close>

text \<open>Modelled from the spec: the element kinds that sections 3 and 4.3 of the
  specification name (\<^verbatim>\<open>ELEMENT_TYPES\<close> of the absent \<^verbatim>\<open>ast.ts\<close>). Used where a concrete
  run is evaluated; the general theorems hold for every \<open>valid\<close>.\<close>

definition ELEMENT_TYPES :: "string list" where
  "ELEMENT_TYPES = [''title'', ''text'', ''divide'', ''button'', ''line'', ''password'',
                    ''input'', ''img'', ''link'']"

definition isValidElementType :: "string \<Rightarrow> bool" where
  "isValidElementType name = (name \<in> set ELEMENT_TYPES)"

text \<open>An instance of \<open>num\<close> for concrete runs. It agrees with \<^verbatim>\<open>String(Number(s))\<close> on
  blank strings and on strings of at most 15 decimal digits (surrounded by white space or
  not); on every other string it answers \<open>''NaN''\<close>, which \<^verbatim>\<open>Number\<close> does not do for
  signs, fractions, exponents, radix prefixes, \<^verbatim>\<open>Infinity\<close> or longer digit strings.\<close>

definition decimalNumber :: "string \<Rightarrow> string" where
  "decimalNumber s =
     (let t = trim s in
      if t = [] then ''0''
      else if list_all isDigit t \<and> length t \<le> 15 then
        (let d = dropWhile (\<lambda>c. c = CHR ''0'') t in if d = [] then ''0'' else d)
      else ''NaN'')"

section \<open>Code generator (codegen.ts)\<close>

definition dq :: char where "dq = CHR 0x22"
definition sq :: char where "sq = CHR 0x27"

definition CSS_PROPERTY_MAP :: "(string \<times> string) list" where
  "CSS_PROPERTY_MAP =
    [(''color'', ''background-color''), (''in'', ''text-align''), (''size'', ''width''),
     (''background'', ''background''), (''background-color'', ''background-color''),
     (''border'', ''border''), (''border-radius'', ''border-radius''),
     (''font-size'', ''font-size''), (''font-family'', ''font-family''),
     (''font-weight'', ''font-weight''), (''text-align'', ''text-align''),
     (''width'', ''width''), (''height'', ''height''), (''margin'', ''margin''),
     (''margin-top'', ''margin-top''), (''margin-bottom'', ''margin-bottom''),
     (''margin-left'', ''margin-left''), (''margin-right'', ''margin-right''),
     (''padding'', ''padding''), (''padding-top'', ''padding-top''),
     (''padding-bottom'', ''padding-bottom''), (''padding-left'', ''padding-left''),
     (''padding-right'', ''padding-right''), (''display'', ''display''), (''flex'', ''flex''),
     (''flex-direction'', ''flex-direction''), (''justify-content'', ''justify-content''),
     (''align-items'', ''align-items''), (''gap'', ''gap''), (''grid'', ''grid''),
     (''position'', ''position''), (''top'', ''top''), (''left'', ''left''),
     (''right'', ''right''), (''bottom'', ''bottom''), (''z-index'', ''z-index''),
     (''opacity'', ''opacity''), (''transform'', ''transform''),
     (''transition'', ''transition''), (''cursor'', ''cursor''), (''overflow'', ''overflow''),
     (''box-shadow'', ''box-shadow''), (''text-decoration'', ''text-decoration''),
     (''line-height'', ''line-height''), (''letter-spacing'', ''letter-spacing''),
     (''max-width'', ''max-width''), (''min-width'', ''min-width''),
     (''max-height'', ''max-height''), (''min-height'', ''min-height'')]"

definition HTML_ATTRIBUTES :: "string list" where
  "HTML_ATTRIBUTES =
    [''id'', ''class'', ''href'', ''src'', ''alt'', ''title'', ''type'', ''name'', ''value'',
     ''placeholder'', ''disabled'', ''readonly'', ''checked'', ''selected'',
     ''target'', ''rel'', ''download'', ''data'', ''role'', ''aria-label'',
     ''width'', ''height'',
     ''autoplay'', ''controls'', ''loop'', ''muted'', ''poster'',
     ''action'', ''method'', ''enctype'',
     ''colspan'', ''rowspan'', ''scope'',
     ''min'', ''max'', ''step'', ''pattern'', ''required'', ''maxlength'', ''minlength'',
     ''for'', ''tabindex'', ''autofocus'', ''autocomplete'']"

definition SELF_CLOSING_ELEMENTS :: "string list" where
  "SELF_CLOSING_ELEMENTS =
    [''area'', ''base'', ''br'', ''col'', ''embed'', ''hr'', ''img'', ''input'',
     ''link'', ''meta'', ''param'', ''source'', ''track'', ''wbr'']"

definition ELEMENT_TAG_MAP :: "(string \<times> string) list" where
  "ELEMENT_TAG_MAP =
    [(''title'', ''h1''), (''text'', ''p''), (''divide'', ''div''), (''line'', ''br''),
     (''heading'', ''h2''), (''subheading'', ''h3'')]"

definition LANGUAGE_MAP :: "(string \<times> string) list" where
  "LANGUAGE_MAP =
    [(''english'', ''en''), (''spanish'', ''es''), (''french'', ''fr''), (''german'', ''de''),
     (''chinese'', ''zh''), (''japanese'', ''ja''), (''korean'', ''ko''),
     (''portuguese'', ''pt''), (''italian'', ''it''), (''russian'', ''ru'')]"

text \<open>
  The three maps are plain objects, so reading them at a key that names a member of
  \<^verbatim>\<open>Object.prototype\<close> yields that member instead of \<^verbatim>\<open>undefined\<close>. For
  \<^verbatim>\<open>CSS_PROPERTY_MAP\<close> the member never passes the property-name test that follows, which
  the model reproduces. For \<^verbatim>\<open>ELEMENT_TAG_MAP\<close> and \<^verbatim>\<open>LANGUAGE_MAP\<close> the member is
  printed into the page as engine-defined text; the model reads those two maps at their own
  keys only, so element kinds and languages named like a member of \<^verbatim>\<open>Object.prototype\<close>
  are outside it.
\<close>

definition OBJECT_PROTOTYPE_KEYS :: "string list" where
  "OBJECT_PROTOTYPE_KEYS =
    [''constructor'', ''__proto__'', ''hasOwnProperty'', ''isPrototypeOf'',
     ''propertyIsEnumerable'', ''toLocaleString'', ''toString'', ''valueOf'',
     ''__defineGetter__'', ''__defineSetter__'', ''__lookupGetter__'', ''__lookupSetter__'']"

text \<open>\<^verbatim>\<open>table[key] || key\<close> at the table's own keys.\<close>

definition lookupOr :: "(string \<times> string) list \<Rightarrow> string \<Rightarrow> string" where
  "lookupOr table key = (case map_of table key of Some v \<Rightarrow> v | None \<Rightarrow> key)"

text \<open>\<^verbatim>\<open>text.replace(/c/g, r)\<close> for a single character.\<close>

definition replaceAll :: "char \<Rightarrow> string \<Rightarrow> string \<Rightarrow> string" where
  "replaceAll c r s = concat (map (\<lambda>x. if x = c then r else [x]) s)"

definition escapeHTML :: "string \<Rightarrow> string" where
  "escapeHTML text =
     replaceAll sq ''&#39;''
       (replaceAll dq ''&quot;''
         (replaceAll (CHR ''>'') ''&gt;''
           (replaceAll (CHR ''<'') ''&lt;''
             (replaceAll (CHR ''&'') ''&amp;'' text))))"

text \<open>\<^verbatim>\<open>/^[0-9A-Fa-f]{6}$/\<close>\<close>

definition isHexColor :: "string \<Rightarrow> bool" where
  "isHexColor v = (length v = 6 \<and> list_all isHexDigit v)"

definition pixelProps :: "string list" where
  "pixelProps =
    [''font-size'', ''width'', ''height'', ''margin'', ''padding'', ''gap'',
     ''top'', ''left'', ''right'', ''bottom'', ''border-radius'', ''size'',
     ''margin-top'', ''margin-bottom'', ''margin-left'', ''margin-right'',
     ''padding-top'', ''padding-bottom'', ''padding-left'', ''padding-right'',
     ''max-width'', ''min-width'', ''max-height'', ''min-height'']"

definition formatCSSValue :: "string \<Rightarrow> string \<Rightarrow> string" where
  "formatCSSValue propName strValue =
     (if (includesStr ''color'' propName \<or> propName = ''background'') \<and> isHexColor strValue
      then ''#'' @ strValue
      else if propName \<in> set pixelProps \<and> strValue \<noteq> [] \<and> list_all isDigit strValue
      then strValue @ ''px''
      else strValue)"

text \<open>\<^verbatim>\<open>/^[a-z][a-z0-9-]*$/i\<close>\<close>

definition looksLikeCSSProperty :: "string \<Rightarrow> bool" where
  "looksLikeCSSProperty p =
     (case p of [] \<Rightarrow> False
      | c # cs \<Rightarrow> isAlpha c \<and> list_all (\<lambda>x. isAlpha x \<or> isDigit x \<or> x = CHR ''-'') cs)"

text \<open>The loop over \<^verbatim>\<open>Object.entries(props)\<close> that collects style declarations; it is
  the same text in \<^verbatim>\<open>generateElementCSS\<close> and in \<^verbatim>\<open>generateInlineStyles\<close>.\<close>

definition styleOf :: "string \<Rightarrow> string \<Rightarrow> string list" where
  "styleOf key v =
     (if key \<in> set HTML_ATTRIBUTES then []
      else if key = ''color'' \<and> isHexColor v then [''background-color: #'' @ v]
      else if key = ''outline'' then
        (if v = ''visible'' then [''border: 1px solid black'']
         else if v = ''invisible'' then [''border: none'']
         else [])
      else if key = ''in'' then
        (if v = ''middle'' \<or> v = ''center'' then [''text-align: center'']
         else if v = ''left'' then [''text-align: left'']
         else if v = ''right'' then [''text-align: right'']
         else [])
      else if key \<in> set OBJECT_PROTOTYPE_KEYS then []
      else
        (let cssProperty = lookupOr CSS_PROPERTY_MAP key in
         if looksLikeCSSProperty cssProperty
         then [cssProperty @ '': '' @ formatCSSValue key v] else []))"

definition styleDeclarations :: "(string \<times> string) list \<Rightarrow> string list" where
  "styleDeclarations props = concat (map (\<lambda>(key, v). styleOf key v) props)"

text \<open>\<^verbatim>\<open>props.id\<close> where it is read for its truth value and its text: \<open>None\<close> when the
  property is missing or the empty string.\<close>

definition truthyProp :: "(string \<times> string) list \<Rightarrow> string \<Rightarrow> string option" where
  "truthyProp props key = (case map_of props key of Some v \<Rightarrow> (if v = [] then None else Some v) | None \<Rightarrow> None)"

definition generateElementCSS :: "node \<Rightarrow> string" where
  "generateElementCSS element =
     (case truthyProp (properties element) ''id'' of
        None \<Rightarrow> []
      | Some ident \<Rightarrow>
          (let styles = styleDeclarations (properties element) in
           if styles = [] then []
           else ''#'' @ ident @ '' { '' @ join ''; '' styles @ ''; }''))"

fun processNode :: "node \<Rightarrow> string list" where
  "processNode (Element ty ps ch c ind loc) =
     (let css = generateElementCSS (Element ty ps ch c ind loc)
      in (if css \<noteq> [] then [css] else []) @ concat (map processNode ch))"
| "processNode _ = []"

definition generateCSS :: "node list \<Rightarrow> string" where
  "generateCSS nodes = join ([nl] @ ''    '') (concat (map processNode nodes))"

definition generateAttributes :: "(string \<times> string) list \<Rightarrow> string" where
  "generateAttributes props =
     (let attrs = map (\<lambda>(key, v). key @ ''='' @ [dq] @ escapeHTML v @ [dq])
                      (filter (\<lambda>(key, v). key \<in> set HTML_ATTRIBUTES) props)
      in if attrs \<noteq> [] then '' '' @ join '' '' attrs else [])"

definition generateInlineStyles :: "(string \<times> string) list \<Rightarrow> string" where
  "generateInlineStyles props =
     (let styles = styleDeclarations props
      in if styles \<noteq> [] then '' style='' @ [dq] @ join ''; '' styles @ [dq] else [])"

definition generateSpecialElement :: "string \<Rightarrow> string" where
  "generateSpecialElement ty =
     (if ty = ''time'' then ''<span class='' @ [dq] @ ''ctiw-time'' @ [dq] @ ''></span>''
      else ''<!-- Unknown special: '' @ ty @ '' -->'')"

fun generateElement :: "node \<Rightarrow> string \<Rightarrow> string" where
  "generateElement (Special ty loc) indentStr = generateSpecialElement ty"
| "generateElement (Property name v loc) indentStr = []"
| "generateElement (ErrorNode msg raw loc) indentStr = []"
| "generateElement (Element ty props ch cont ind loc) indentStr =
     (let attrs = generateAttributes props;
          inlineStyles = (if truthyProp props ''id'' = None then generateInlineStyles props else []);
          contentStr = (case cont of Some c \<Rightarrow> (if c = [] then [] else escapeHTML c) | None \<Rightarrow> []);
          placeholder = (if contentStr \<noteq> [] then '' placeholder='' @ [dq] @ contentStr @ [dq] else []);
          idAttr = (case truthyProp props ''id'' of
                      Some ident \<Rightarrow> '' id='' @ [dq] @ ident @ [dq] | None \<Rightarrow> [])
      in
      if ty = ''password'' then
        ''<input type='' @ [dq] @ ''password'' @ [dq] @ idAttr @ placeholder @ inlineStyles @ ''>''
      else if ty = ''input'' then
        ''<input type='' @ [dq] @ ''text'' @ [dq] @ idAttr @ placeholder @ inlineStyles @ ''>''
      else if ty = ''img'' then
        (let src = (if contentStr \<noteq> [] then contentStr
                    else (case truthyProp props ''src'' of Some s \<Rightarrow> s | None \<Rightarrow> []));
             alt = (case truthyProp props ''alt'' of Some a \<Rightarrow> a | None \<Rightarrow> [])
         in ''<img src='' @ [dq] @ escapeHTML src @ [dq] @ '' alt='' @ [dq] @ escapeHTML alt @ [dq]
              @ idAttr @ inlineStyles @ ''>'')
      else if ty = ''link'' then
        (let href = (case truthyProp props ''href'' of Some h \<Rightarrow> h | None \<Rightarrow> ''#'')
         in ''<a href='' @ [dq] @ escapeHTML href @ [dq] @ idAttr @ inlineStyles @ ''>''
              @ contentStr @ ''</a>'')
      else
        (let tag = lookupOr ELEMENT_TAG_MAP ty in
         if tag \<in> set SELF_CLOSING_ELEMENTS then ''<'' @ tag @ attrs @ inlineStyles @ ''>''
         else
           (let validChildren = filter (\<lambda>child. isElementNode child \<or> isSpecialNode child) ch in
            if validChildren \<noteq> [] then
              ''<'' @ tag @ attrs @ inlineStyles @ ''>'' @ [nl] @ indentStr @ ''  ''
                @ join ([nl] @ indentStr @ ''  '')
                       (map (\<lambda>child. generateElement child (indentStr @ ''  '')) validChildren)
                @ [nl] @ indentStr @ ''</'' @ tag @ ''>''
            else ''<'' @ tag @ attrs @ inlineStyles @ ''>'' @ contentStr @ ''</'' @ tag @ ''>'')))"

fun hasTime :: "node \<Rightarrow> bool" where
  "hasTime (Special ty loc) = (ty = ''time'')"
| "hasTime (Element ty props ch cont ind loc) = list_ex hasTime ch"
| "hasTime _ = False"

definition hasTimeElement :: "node list \<Rightarrow> bool" where
  "hasTimeElement nodes = list_ex hasTime nodes"

definition generateTimeScript :: string where
  "generateTimeScript =
     [nl] @ ''  <script>'' @
     [nl] @ ''    function updateTime() {'' @
     [nl] @ ''      const timeElements = document.querySelectorAll('' @ [sq] @ ''.ctiw-time'' @ [sq] @ '');'' @
     [nl] @ ''      const now = new Date().toLocaleTimeString();'' @
     [nl] @ ''      timeElements.forEach(el => el.textContent = now);'' @
     [nl] @ ''    }'' @
     [nl] @ ''    updateTime();'' @
     [nl] @ ''    setInterval(updateTime, 1000);'' @
     [nl] @ ''  </script>''"

text \<open>\<^verbatim>\<open>meta.fontSize\<close> is a number: it counts as set unless it is \<open>NaN\<close> or zero.\<close>

definition generateHTML :: "DocumentNode \<Rightarrow> string" where
  "generateHTML doc =
     (let meta = doc_metadata doc;
          pageTitle = (case title meta of Some t \<Rightarrow> (if t = [] then ''CTIW Page'' else t)
                       | None \<Rightarrow> ''CTIW Page'');
          lang = (case language meta of
                    Some l \<Rightarrow> (if l = [] then []
                                else (case map_of LANGUAGE_MAP (toLowerCase l) of
                                        Some c \<Rightarrow> c | None \<Rightarrow> l))
                  | None \<Rightarrow> []);
          fontSizeStr = (case fontSize meta of
                        Some r \<Rightarrow> (if r = ''NaN'' \<or> r = ''0'' then []
                                    else ''font-size: '' @ r @ ''px;'')
                      | None \<Rightarrow> []);
          bodyNodes = filter (\<lambda>child. isElementNode child \<or> isSpecialNode child) (doc_children doc);
          elementCSS = generateCSS bodyNodes;
          bodyContent = join [nl] (map (\<lambda>n. ''  '' @ generateElement n ''  '') bodyNodes);
          needsTimeScript = hasTimeElement bodyNodes;
          langAttr = (if lang \<noteq> [] then '' lang='' @ [dq] @ lang @ [dq] else [])
      in ''<!DOCTYPE html>'' @
         [nl] @ ''<html'' @ langAttr @ ''>'' @
         [nl] @ ''<head>'' @
         [nl] @ ''  <meta charset='' @ [dq] @ ''utf-8'' @ [dq] @ ''>'' @
         [nl] @ ''  <title>'' @ escapeHTML pageTitle @ ''</title>'' @
         [nl] @ ''  <style>'' @
         [nl] @ ''    body { font-family: sans-serif; padding: 20px;''
               @ (if fontSizeStr \<noteq> [] then '' '' @ fontSizeStr else []) @ '' }'' @
         [nl] @ ''    '' @ elementCSS @
         [nl] @ ''  </style>'' @
         [nl] @ ''</head>'' @
         [nl] @ ''<body>'' @
         [nl] @ bodyContent @ (if needsTimeScript then generateTimeScript else []) @
         [nl] @ ''</body>'' @
         [nl] @ ''</html>'')"

section \<open>Notions used in the properties\<close>

text \<open>Only \<open>divide\<close> elements have children, at every depth of a tree.\<close>

fun onlyDivideHasChildren :: "node \<Rightarrow> bool" where
  "onlyDivideHasChildren (Element ty ps ch c ind loc) =
     ((ch \<noteq> [] \<longrightarrow> ty = ''divide'') \<and> list_all onlyDivideHasChildren ch)"
| "onlyDivideHasChildren _ = True"

text \<open>Every frame of the container stack refers to a \<open>divide\<close> element of the tree. This
  holds whenever \<^verbatim>\<open>parseBody\<close> is at the head of its loop.\<close>

definition framesOpen :: "node list \<Rightarrow> Frame list \<Rightarrow> bool" where
  "framesOpen forest stack = list_all (\<lambda>f. isDivideAt forest (frame_element f)) stack"

text \<open>No error of the kind the specification names for an unclosed container.\<close>

definition noUnmatched :: "Parser \<Rightarrow> bool" where
  "noUnmatched st = (UnmatchedContainer \<notin> kind ` set (perrors st))"

text \<open>Sources of the concrete runs.\<close>

definition src_open_divide :: string where
  "src_open_divide = ''=CTIW='' @ [nl] @ ''=divide='' @ [nl] @ ''==CTIW==''"


text \<open>The indentation level of the source line a node comes from, read through the line
  number of the node's location; and: every child, at every depth, comes from a line
  whose indentation level is at least one.\<close>

fun startLine :: "node \<Rightarrow> nat" where
  "startLine (Element _ _ _ _ _ loc) = fst loc"
| "startLine (Special _ loc) = fst loc"
| "startLine (Property _ _ loc) = fst loc"
| "startLine (ErrorNode _ _ loc) = fst loc"

definition lineIndent :: "string list \<Rightarrow> node \<Rightarrow> nat" where
  "lineIndent ls n =
     (if 0 < startLine n \<and> startLine n \<le> length ls
      then fst (parseIndentation (ls ! (startLine n - 1))) else 0)"

fun childrenIndented :: "string list \<Rightarrow> node \<Rightarrow> bool" where
  "childrenIndented ls (Element ty ps ch c ind loc) =
     list_all (\<lambda>x. 0 < lineIndent ls x \<and> childrenIndented ls x) ch"
| "childrenIndented ls _ = True"

definition src_same_indent :: string where
  "src_same_indent = ''=CTIW='' @ [nl] @ ''..=divide='' @ [nl] @ ''..=text=hi='' @ [nl] @ ''==CTIW==''"

text \<open>The parser after the header and the line \<open>....=divide=\<close>: one container is open, at
  indentation level 2.\<close>

definition state_open_divide :: Parser where
  "state_open_divide =
     \<lparr>lines = [''=CTIW='', ''....=divide='', ''=text=hi=''], currentLine = 2, perrors = [],
      metadata = \<lparr>title = None, language = None, fontSize = None\<rparr>,
      body = [Element ''divide'' [] [] None 0 (2, 1, 2, 1)]\<rparr>"




text \<open>The pipeline from a source to a page, and a process that runs it on one source after
  another. Nothing is handed from one run to the next: the module-level bindings of
  \<^verbatim>\<open>parser.ts\<close> and \<^verbatim>\<open>codegen.ts\<close> are constants that no function writes, and every
  call of \<^verbatim>\<open>parse\<close> and of \<^verbatim>\<open>tokenize\<close> builds its own \<^verbatim>\<open>Parser\<close> and \<^verbatim>\<open>Lexer\<close>.\<close>

definition compile :: "(string \<Rightarrow> bool) \<Rightarrow> (string \<Rightarrow> string) \<Rightarrow> string \<Rightarrow> string" where
  "compile valid num src = generateHTML (document (parse valid num src))"


text \<open>A password field whose id holds a double quote.\<close>

definition src_quote_id :: string where
  "src_quote_id = ''=CTIW='' @ [nl] @ ''=password= id:a'' @ [dq] @ ''b='' @ [nl] @ ''==CTIW==''"

definition element_quote_id :: node where
  "element_quote_id = Element ''password'' [(''id'', ''a'' @ [dq] @ ''b'')] [] None 0 (2, 1, 2, 8)"

section \<open>Properties of the lexer\<close>

subsection \<open>Scanning a run of characters\<close>












subsection \<open>Hexadecimal colours, identifiers and numbers\<close>




lemma scanIndex_segment:
  "list_all P seg \<Longrightarrow> (rest = [] \<or> \<not> P (hd rest)) \<Longrightarrow>
     scanIndex P (pre @ seg @ rest) (length pre) = length pre + length seg"
proof (induction seg arbitrary: pre)
  case Nil
  then show ?case
    by (subst scanIndex.simps) (auto simp: nth_append hd_conv_nth)
next
  case (Cons a seg)
  have "scanIndex P ((pre @ [a]) @ seg @ rest) (length (pre @ [a])) = length (pre @ [a]) + length seg"
    using Cons by (intro Cons.IH) auto
  then show ?case using Cons.prems
    by (subst scanIndex.simps) (simp add: nth_append)
qed

lemma blank_check_contentFollows:
  "(let m = scanIndex isSpaceOrTab (pre @ tail) (length pre)
    in m < length (pre @ tail) \<and> (pre @ tail) ! m \<noteq> CHR ''='' \<and> (pre @ tail) ! m \<noteq> nl)
   = contentFollows tail"
proof (induction tail arbitrary: pre)
  case Nil
  show ?case by (subst scanIndex.simps) (simp add: contentFollows_def)
next
  case (Cons a tail)
  show ?case
  proof (cases "isSpaceOrTab a")
    case True
    have a: "a \<noteq> CHR ''=''" "a \<noteq> nl" using True by (auto simp: isSpaceOrTab_def nl_def tab_def)
    have "scanIndex isSpaceOrTab (pre @ a # tail) (length pre)
        = scanIndex isSpaceOrTab ((pre @ [a]) @ tail) (length (pre @ [a]))"
      using True by (subst scanIndex.simps) (simp add: nth_append)
    then show ?thesis using Cons.IH[of "pre @ [a]"] True a
      by (simp add: contentFollows_def)
  next
    case False
    have "scanIndex isSpaceOrTab (pre @ a # tail) (length pre) = length pre"
      using False by (subst scanIndex.simps) (simp add: nth_append)
    then show ?thesis using False by (auto simp: contentFollows_def Let_def nth_append)
  qed
qed



lemma looksLikeAttributeAt_shape:
  assumes "list_all isAlphaNumericOrHyphen ident" "\<not> isAlphaNumericOrHyphen c"
  shows "looksLikeAttributeAt (pre @ ident @ c # tail) (length pre)
     = (c = CHR '':'' \<or> (c = CHR ''='' \<and> contentFollows tail))"
proof -
  define src where "src = pre @ ident @ c # tail"
  define k0 where "k0 = length pre + length ident"
  have k: "scanIndex isAlphaNumericOrHyphen src (length pre) = k0"
    using scanIndex_segment[of isAlphaNumericOrHyphen ident "c # tail" pre] assms
    by (simp add: src_def k0_def)
  have klt: "k0 < length src" "src ! k0 = c"
    by (simp_all add: nth_append src_def k0_def)
  have m: "(scanIndex isSpaceOrTab src (k0 + 1) < length src
             \<and> src ! scanIndex isSpaceOrTab src (k0 + 1) \<noteq> CHR ''=''
             \<and> src ! scanIndex isSpaceOrTab src (k0 + 1) \<noteq> nl) = contentFollows tail"
    using blank_check_contentFollows[of "pre @ ident @ [c]" tail]
    by (simp add: src_def k0_def Let_def add.assoc)
  have "looksLikeAttributeAt src (length pre) = (c = CHR '':'' \<or> (c = CHR ''='' \<and> contentFollows tail))"
    unfolding looksLikeAttributeAt_def contentAfterEquals_def Let_def k
    using klt m by auto
  then show ?thesis by (simp add: src_def)
qed




subsection \<open>The attribute lookahead of the value scanner\<close>



section \<open>Properties of the parser\<close>

subsection \<open>The container stack and the tree\<close>

lemma isDivideElement_addChild [simp]: "isDivideElement (addChild x n) = isDivideElement x"
  by (cases x) auto

lemma length_pushChild [simp]: "length (pushChild p n forest) = length forest"
  by (induction p n forest rule: pushChild.induct) auto

lemma isDivideAt_append:
  "isDivideAt forest q \<Longrightarrow> isDivideAt (forest @ [n]) q"
proof (induction forest q rule: nodeAt.induct)
  case (1 forest)
  then show ?case by (simp add: isDivideAt_def)
next
  case (2 forest i)
  then show ?case by (auto simp: isDivideAt_def nth_append split: if_splits)
next
  case (3 forest i j p)
  then show ?case by (auto simp: isDivideAt_def nth_append split: if_splits node.splits)
qed

lemma isDivideAt_pushChild:
  "isDivideAt forest q \<Longrightarrow> isDivideAt (pushChild p n forest) q"
proof (induction forest q arbitrary: p rule: nodeAt.induct)
  case (1 forest)
  then show ?case by (simp add: isDivideAt_def)
next
  case (2 forest i)
  then have i: "i < length forest" and d: "isDivideElement (forest ! i)"
    by (auto simp: isDivideAt_def split: if_splits)
  show ?case
  proof (cases p)
    case Nil
    then show ?thesis using 2 by simp
  next
    case (Cons j p1)
    show ?thesis
    proof (cases p1)
      case Nil
      then show ?thesis using Cons i d by (auto simp: isDivideAt_def nth_list_update)
    next
      case (Cons k p2)
      then show ?thesis using \<open>p = j # p1\<close> i d
        by (cases "forest ! i") (auto simp: isDivideAt_def nth_list_update)
    qed
  qed
next
  case (3 forest i i' q)
  then have i: "i < length forest" by (auto simp: isDivideAt_def split: if_splits)
  then obtain ty ps ch c ind loc where el: "forest ! i = Element ty ps ch c ind loc"
    and sub: "isDivideAt ch (i' # q)"
    using 3(2) by (cases "forest ! i") (auto simp: isDivideAt_def)
  show ?case
  proof (cases p)
    case Nil
    then show ?thesis using 3(2) by simp
  next
    case (Cons j p1)
    show ?thesis
    proof (cases "j = i")
      case False
      then show ?thesis using Cons i el sub
        by (cases p1; cases "forest ! j") (auto simp: isDivideAt_def nth_list_update)
    next
      case True
      show ?thesis
      proof (cases p1)
        case Nil
        have "isDivideAt (ch @ [n]) (i' # q)" using sub by (rule isDivideAt_append)
        then show ?thesis using Cons Nil True i el
          by (auto simp: isDivideAt_def nth_list_update)
      next
        case (Cons k p2)
        have "isDivideAt (pushChild (k # p2) n ch) (i' # q)"
          using 3(1)[OF i el sub] .
        then show ?thesis using \<open>p = j # p1\<close> Cons True i el
          by (auto simp: isDivideAt_def nth_list_update)
      qed
    qed
  qed
qed

lemma nodeAt_pushChild_new:
  "isDivideAt forest p \<Longrightarrow> nodeAt (pushChild p n forest) (p @ [childCount forest p]) = Some n"
proof (induction forest p rule: nodeAt.induct)
  case (1 forest)
  then show ?case by (simp add: isDivideAt_def)
next
  case (2 forest i)
  then show ?case
    by (cases "forest ! i") (auto simp: isDivideAt_def childCount_def nth_append split: if_splits)
next
  case (3 forest i j p)
  then show ?case
    by (cases "forest ! i") (auto simp: isDivideAt_def childCount_def split: if_splits)
qed

lemma list_all_update: "list_all P xs \<Longrightarrow> P y \<Longrightarrow> list_all P (xs[i := y])"
  by (cases "i < length xs") (auto simp: list_all_length nth_list_update)

lemma pushChild_onlyDivide:
  "list_all onlyDivideHasChildren forest \<Longrightarrow> onlyDivideHasChildren n \<Longrightarrow> isDivideAt forest p \<Longrightarrow>
     list_all onlyDivideHasChildren (pushChild p n forest)"
proof (induction forest p rule: nodeAt.induct)
  case (1 forest)
  then show ?case by simp
next
  case (2 forest i)
  then have i: "i < length forest" and d: "isDivideElement (forest ! i)"
    by (auto simp: isDivideAt_def split: if_splits)
  have ok: "onlyDivideHasChildren (forest ! i)" using 2(1) i by (simp add: list_all_length)
  have "onlyDivideHasChildren (addChild (forest ! i) n)"
    using ok d 2(2) by (cases "forest ! i") auto
  then show ?case using 2(1) i by (simp add: list_all_update)
next
  case (3 forest i j p)
  then have i: "i < length forest" by (auto simp: isDivideAt_def split: if_splits)
  then obtain ty ps ch c ind loc where el: "forest ! i = Element ty ps ch c ind loc"
    and sub: "isDivideAt ch (j # p)"
    using 3(4) by (cases "forest ! i") (auto simp: isDivideAt_def)
  have ok: "onlyDivideHasChildren (forest ! i)" using 3(2) i by (simp add: list_all_length)
  then have okch: "list_all onlyDivideHasChildren ch" and ty: "ch \<noteq> [] \<longrightarrow> ty = ''divide''"
    using el by auto
  have ih: "list_all onlyDivideHasChildren (pushChild (j # p) n ch)"
    using 3(1)[OF i el okch 3(3) sub] .
  have ne: "pushChild (j # p) n ch \<noteq> [] \<longrightarrow> ch \<noteq> []"
    by (cases p) auto
  have "onlyDivideHasChildren (Element ty ps (pushChild (j # p) n ch) c ind loc)"
    using ih ty ne by simp
  then show ?case using 3(2) i el by (simp add: list_all_update)
qed

lemma popClosed_framesOpen:
  "framesOpen forest stack \<Longrightarrow> popClosed forest stack ind = stack"
  by (subst popClosed.simps) (auto simp: framesOpen_def list_all_iff)

lemma framesOpen_butlast: "framesOpen forest stack \<Longrightarrow> framesOpen forest (butlast stack)"
  by (auto simp: framesOpen_def list_all_iff dest: in_set_butlastD)

lemma framesOpen_pushChild:
  "framesOpen forest stack \<Longrightarrow> framesOpen (pushChild p n forest) stack"
  by (auto simp: framesOpen_def list_all_iff intro: isDivideAt_pushChild)

lemma framesOpen_append:
  "framesOpen forest stack \<Longrightarrow> framesOpen (forest @ [n]) stack"
  by (auto simp: framesOpen_def list_all_iff intro: isDivideAt_append)

lemma parseElement_shape [simp]:
  "isElementNode (parseElement ty remaining k)"
  "elementType (parseElement ty remaining k) = ty"
  "children (parseElement ty remaining k) = []"
  "onlyDivideHasChildren (parseElement ty remaining k)"
  by (auto simp: parseElement_def createElement_def split: option.splits)

lemma parseStatement_body:
  "parseStatement valid num st ln k = (r, st1) \<Longrightarrow> body st1 = body st"
  by (auto simp: parseStatement_def parseSpecialElement_def parsePropertyOrElement_def Let_def
      addParseError_def split: if_splits option.splits)

lemma parseStatement_node:
  assumes "parseStatement valid num st ln k = (Some n, st1)"
  shows "(\<exists>ty remaining. n = parseElement ty remaining k)
         \<or> n = createSpecial ''time'' (createLocation k 1 k (length ln))
         \<or> (\<exists>name remaining. n = parseDocProperty num name remaining k)"
  using assms
  by (auto simp: parseStatement_def parseSpecialElement_def parsePropertyOrElement_def Let_def
      split: if_splits option.splits)

lemma placeNode_inv:
  assumes ok: "list_all onlyDivideHasChildren (body st)" and fr: "framesOpen (body st) stack"
    and n: "onlyDivideHasChildren n"
    and res: "placeNode st stack ind n = (st', stack')"
  shows "list_all onlyDivideHasChildren (body st') \<and> framesOpen (body st') stack'"
proof -
  have pop: "popClosed (body st) stack ind = stack" using fr by (rule popClosed_framesOpen)
  show ?thesis
  proof (cases "isElementNode n \<or> isSpecialNode n")
    case False
    then show ?thesis using res ok fr pop
      by (cases n) (auto simp: placeNode_def Let_def split: if_splits)
  next
    case True
    show ?thesis
    proof (cases "stack \<noteq> [] \<and> ind > 0")
      case inside: True
      define p where "p = frame_element (last stack)"
      have dp: "isDivideAt (body st) p"
        using fr inside by (auto simp: framesOpen_def list_all_iff p_def)
      have b: "body st' = pushChild p n (body st)"
        using res True inside pop by (cases n) (auto simp: placeNode_def Let_def p_def)
      have s: "stack' = (if isDivideElement n
                then stack @ [\<lparr>frame_element = p @ [childCount (body st) p], frame_indent = ind\<rparr>]
                else stack)"
        using res True inside pop by (cases n) (auto simp: placeNode_def Let_def p_def)
      have 1: "list_all onlyDivideHasChildren (body st')"
        unfolding b using ok n dp by (rule pushChild_onlyDivide)
      have 2: "framesOpen (body st') stack" unfolding b using fr by (rule framesOpen_pushChild)
      have 3: "isDivideElement n \<Longrightarrow> isDivideAt (body st') (p @ [childCount (body st) p])"
        unfolding b using nodeAt_pushChild_new[OF dp, of n] by (simp add: isDivideAt_def)
      show ?thesis using 1 2 3 s by (auto simp: framesOpen_def)
    next
      case outside: False
      have b: "body st' = body st @ [n]"
        using res True outside pop by (cases n) (auto simp: placeNode_def Let_def)
      have s: "stack' = (if isDivideElement n
                then stack @ [\<lparr>frame_element = [length (body st)], frame_indent = ind\<rparr>]
                else stack)"
        using res True outside pop by (cases n) (auto simp: placeNode_def Let_def)
      have 2: "framesOpen (body st') stack" unfolding b using fr by (rule framesOpen_append)
      have 3: "isDivideElement n \<Longrightarrow> isDivideAt (body st') [length (body st)]"
        unfolding b by (simp add: isDivideAt_def)
      show ?thesis using ok n 2 3 s b by (auto simp: framesOpen_def)
    qed
  qed
qed

lemma parseStatement_onlyDivide:
  "parseStatement valid num st ln k = (Some n, st1) \<Longrightarrow> onlyDivideHasChildren n"
  by (auto dest!: parseStatement_node simp: createSpecial_def parseDocProperty_def createProperty_def Let_def)

lemma parseBody_line_inv:
  assumes ok: "list_all onlyDivideHasChildren (body st)" and fr: "framesOpen (body st) stack"
    and res: "parseBody_line valid num st stack rawLine = (st', stack')"
  shows "list_all onlyDivideHasChildren (body st') \<and> framesOpen (body st') stack'"
proof -
  obtain ind cont where pi: "parseIndentation rawLine = (ind, cont)"
    by (cases "parseIndentation rawLine")
  obtain r st1 where ps: "parseStatement valid num st cont (currentLine st + 1) = (r, st1)"
    by (cases "parseStatement valid num st cont (currentLine st + 1)")
  have b1: "body st1 = body st" by (rule parseStatement_body[OF ps])
  show ?thesis
  proof (cases "cont = ''=divide='' \<and> stack \<noteq> []")
    case True
    then show ?thesis using res pi ok fr by (auto simp: parseBody_line_def framesOpen_butlast)
  next
    case False
    show ?thesis
    proof (cases r)
      case None
      then show ?thesis using res pi ps False ok fr b1 by (auto simp: parseBody_line_def)
    next
      case (Some n)
      then have pl: "placeNode st1 stack ind n = (st', stack')"
        using res pi ps False by (auto simp: parseBody_line_def)
      have n: "onlyDivideHasChildren n" using ps Some by (auto dest: parseStatement_onlyDivide)
      show ?thesis using placeNode_inv[OF _ _ n pl] ok fr b1 by simp
    qed
  qed
qed

lemma parseBody_loop_inv:
  "list_all onlyDivideHasChildren (body st) \<Longrightarrow> framesOpen (body st) stack \<Longrightarrow>
   parseBody_loop valid num st stack = (st', stack') \<Longrightarrow>
   list_all onlyDivideHasChildren (body st') \<and> framesOpen (body st') stack'"
proof (induction valid num st stack rule: parseBody_loop.induct)
  case (1 valid num st stack)
  show ?case
  proof (cases "currentLine st < length (lines st)")
    case False
    then show ?thesis using 1(3,4,5) by (subst (asm) parseBody_loop.simps) auto
  next
    case lt: True
    show ?thesis
    proof (cases "trim (lines st ! currentLine st) = ''==CTIW==''")
      case True
      then show ?thesis using lt 1(3,4,5) by (subst (asm) parseBody_loop.simps) auto
    next
      case nf: False
      show ?thesis
      proof (cases "trim (lines st ! currentLine st) = []")
        case True
        have "parseBody_loop valid num (st\<lparr>currentLine := currentLine st + 1\<rparr>) stack = (st', stack')"
          using 1(5) lt nf True by (subst (asm) parseBody_loop.simps) simp
        then show ?thesis using 1(1)[OF lt nf True] 1(3,4) by simp
      next
        case ne: False
        obtain st1 stack1 where pl:
          "parseBody_line valid num st stack (lines st ! currentLine st) = (st1, stack1)"
          by (cases "parseBody_line valid num st stack (lines st ! currentLine st)")
        have i1: "list_all onlyDivideHasChildren (body st1) \<and> framesOpen (body st1) stack1"
          using parseBody_line_inv[OF 1(3,4) pl] .
        have "parseBody_loop valid num (st1\<lparr>currentLine := currentLine st1 + 1\<rparr>) stack1 = (st', stack')"
          using 1(5) lt nf ne pl by (subst (asm) parseBody_loop.simps) simp
        then show ?thesis using 1(2)[OF lt nf ne pl[symmetric]] i1 by simp
      qed
    qed
  qed
qed

lemma skipEmptyLines_body [simp]: "body (skipEmptyLines st) = body st"
  by (induction st rule: skipEmptyLines.induct) (subst skipEmptyLines.simps, auto)

lemma parseHeader_body: "parseHeader st = (ok, st') \<Longrightarrow> body st' = body st"
  by (auto simp: parseHeader_def Let_def split: if_splits)

lemma parseFooter_body: "parseFooter st = (ok, st') \<Longrightarrow> body st' = body st"
  by (auto simp: parseFooter_def Let_def split: if_splits)

lemma addParseError_body [simp]: "body (addParseError st k l) = body st"
  by (simp add: addParseError_def)

subsection \<open>Children belong to divide elements\<close>

text \<open>
  Claim C10. In the document that \<^verbatim>\<open>parse\<close> returns, at every depth of the tree, a node
  with a non-empty list of children is an Element of kind \<open>divide\<close>; every other node has no
  children.
\<close>

theorem C10_only_divide_has_children:
  "list_all onlyDivideHasChildren (doc_children (document (parse valid num src)))"
proof -
  obtain ok st1 where h: "parseHeader (new_Parser src) = (ok, st1)"
    by (cases "parseHeader (new_Parser src)")
  define st2 where "st2 = (if \<not> ok then addParseError st1 MissingHeader None else st1)"
  obtain st3 stack3 where l: "parseBody_loop valid num st2 [] = (st3, stack3)"
    by (cases "parseBody_loop valid num st2 []")
  obtain ok2 st4 where f: "parseFooter st3 = (ok2, st4)" by (cases "parseFooter st3")
  have b2: "body st2 = []" using parseHeader_body[OF h] by (simp add: st2_def new_Parser_def)
  have "list_all onlyDivideHasChildren (body st3)"
    using parseBody_loop_inv[OF _ _ l] b2 by (simp add: framesOpen_def)
  moreover have "body st4 = body st3" by (rule parseFooter_body[OF f])
  ultimately show ?thesis
    using h l f
    by (simp add: parse_def Parser_parse_def parseBody_def st2_def[symmetric] createDocument_def
        Let_def)
qed

text \<open>At a source with a container that holds a text: the only node with children is the
  \<open>divide\<close> element.\<close>

theorem C10_only_divide_has_children_witness:
  "doc_children (document (parse isValidElementType decimalNumber src_same_indent))
     = [Element ''divide'' [] [Element ''text'' [] [] (Some ''hi'') 0 (3, 1, 3, 3)] None 0 (2, 1, 2, 1)]
   \<and> list_all onlyDivideHasChildren
         (doc_children (document (parse isValidElementType decimalNumber src_same_indent)))"
proof -
  have "doc_children (document (parse isValidElementType decimalNumber src_same_indent))
     = [Element ''divide'' [] [Element ''text'' [] [] (Some ''hi'') 0 (3, 1, 3, 3)] None 0 (2, 1, 2, 1)]"
    by code_simp
  then show ?thesis
    using C10_only_divide_has_children[of isValidElementType decimalNumber src_same_indent]
    by simp
qed

subsection \<open>No error for open containers\<close>

lemma noUnmatched_addParseError:
  "noUnmatched st \<Longrightarrow> k \<noteq> UnmatchedContainer \<Longrightarrow> noUnmatched (addParseError st k l)"
  by (simp add: noUnmatched_def addParseError_def)

lemma skipEmptyLines_perrors [simp]: "perrors (skipEmptyLines st) = perrors st"
  by (induction st rule: skipEmptyLines.induct) (subst skipEmptyLines.simps, auto)

lemma parseHeader_perrors: "parseHeader st = (ok, st') \<Longrightarrow> perrors st' = perrors st"
  by (auto simp: parseHeader_def Let_def split: if_splits)

lemma parseFooter_perrors: "parseFooter st = (ok, st') \<Longrightarrow> perrors st' = perrors st"
  by (auto simp: parseFooter_def Let_def split: if_splits)

lemma parseStatement_noUnmatched:
  "parseStatement valid num st ln k = (r, st1) \<Longrightarrow> noUnmatched st \<Longrightarrow> noUnmatched st1"
  by (auto simp: parseStatement_def parseSpecialElement_def parsePropertyOrElement_def Let_def
      noUnmatched_def addParseError_def split: if_splits option.splits)

lemma placeNode_perrors: "placeNode st stack ind n = (st', stack') \<Longrightarrow> perrors st' = perrors st"
  by (cases n) (auto simp: placeNode_def Let_def split: if_splits)

lemma parseBody_line_noUnmatched:
  assumes "parseBody_line valid num st stack rawLine = (st', stack')" "noUnmatched st"
  shows "noUnmatched st'"
proof -
  obtain ind cont where pi: "parseIndentation rawLine = (ind, cont)"
    by (cases "parseIndentation rawLine")
  obtain r st1 where ps: "parseStatement valid num st cont (currentLine st + 1) = (r, st1)"
    by (cases "parseStatement valid num st cont (currentLine st + 1)")
  have n1: "noUnmatched st1" using parseStatement_noUnmatched[OF ps assms(2)] .
  show ?thesis
  proof (cases "cont = ''=divide='' \<and> stack \<noteq> []")
    case True
    then show ?thesis using assms pi by (auto simp: parseBody_line_def)
  next
    case False
    show ?thesis
    proof (cases r)
      case None
      then show ?thesis using assms(1) pi ps False n1 by (auto simp: parseBody_line_def)
    next
      case (Some n)
      then have "placeNode st1 stack ind n = (st', stack')"
        using assms(1) pi ps False by (auto simp: parseBody_line_def)
      from placeNode_perrors[OF this] n1 show ?thesis by (simp add: noUnmatched_def)
    qed
  qed
qed

lemma parseBody_loop_noUnmatched:
  "noUnmatched st \<Longrightarrow> parseBody_loop valid num st stack = (st', stack') \<Longrightarrow> noUnmatched st'"
proof (induction valid num st stack rule: parseBody_loop.induct)
  case (1 valid num st stack)
  show ?case
  proof (cases "currentLine st < length (lines st)")
    case False
    then show ?thesis using 1(3,4) by (subst (asm) parseBody_loop.simps) auto
  next
    case lt: True
    show ?thesis
    proof (cases "trim (lines st ! currentLine st) = ''==CTIW==''")
      case True
      then show ?thesis using lt 1(3,4) by (subst (asm) parseBody_loop.simps) auto
    next
      case nf: False
      show ?thesis
      proof (cases "trim (lines st ! currentLine st) = []")
        case True
        have "parseBody_loop valid num (st\<lparr>currentLine := currentLine st + 1\<rparr>) stack = (st', stack')"
          using 1(4) lt nf True by (subst (asm) parseBody_loop.simps) simp
        then show ?thesis using 1(1)[OF lt nf True] 1(3) by (simp add: noUnmatched_def)
      next
        case ne: False
        obtain st1 stack1 where pl:
          "parseBody_line valid num st stack (lines st ! currentLine st) = (st1, stack1)"
          by (cases "parseBody_line valid num st stack (lines st ! currentLine st)")
        have i1: "noUnmatched st1" using parseBody_line_noUnmatched[OF pl 1(3)] .
        have "parseBody_loop valid num (st1\<lparr>currentLine := currentLine st1 + 1\<rparr>) stack1 = (st', stack')"
          using 1(4) lt nf ne pl by (subst (asm) parseBody_loop.simps) simp
        then show ?thesis using 1(2)[OF lt nf ne pl[symmetric]] i1 by (simp add: noUnmatched_def)
      qed
    qed
  qed
qed

text \<open>
  Claim C2, amended. \<^verbatim>\<open>parse\<close> reports no error for a container that is still open at the
  end of the input: whatever the source, no error of kind \<open>UnmatchedContainer\<close> is among
  the errors it returns. The frames still open when the body ends are dropped without a
  message.
\<close>

theorem C2_no_unmatched_container_error:
  "UnmatchedContainer \<notin> kind ` set (parse_errors (parse valid num src))"
proof -
  obtain ok st1 where h: "parseHeader (new_Parser src) = (ok, st1)"
    by (cases "parseHeader (new_Parser src)")
  define st2 where "st2 = (if \<not> ok then addParseError st1 MissingHeader None else st1)"
  obtain st3 stack3 where l: "parseBody_loop valid num st2 [] = (st3, stack3)"
    by (cases "parseBody_loop valid num st2 []")
  obtain ok2 st4 where f: "parseFooter st3 = (ok2, st4)" by (cases "parseFooter st3")
  define st5 where "st5 = (if \<not> ok2 then addParseError st4 MissingFooter None else st4)"
  have "noUnmatched st1" using parseHeader_perrors[OF h] by (simp add: noUnmatched_def new_Parser_def)
  then have "noUnmatched st2" by (simp add: st2_def noUnmatched_addParseError)
  then have "noUnmatched st3" using l by (rule parseBody_loop_noUnmatched)
  then have "noUnmatched st4" using parseFooter_perrors[OF f] by (simp add: noUnmatched_def)
  then have "noUnmatched st5" by (simp add: st5_def noUnmatched_addParseError)
  moreover have "parse_errors (parse valid num src) = perrors st5"
    using h l f
    by (simp add: parse_def Parser_parse_def parseBody_def st2_def[symmetric] st5_def Let_def)
  ultimately show ?thesis by (simp add: noUnmatched_def)
qed

text \<open>At a source whose only statement is \<open>=foo=\<close>: there are errors, none of them for a
  container.\<close>

theorem C2_no_unmatched_container_error_witness:
  "map kind (parse_errors (parse isValidElementType decimalNumber ''=foo=''))
     = [MissingHeader, UnknownElementKind ''foo'', MissingFooter]
   \<and> UnmatchedContainer \<notin> kind ` set (parse_errors (parse isValidElementType decimalNumber ''=foo=''))"
proof -
  have "map kind (parse_errors (parse isValidElementType decimalNumber ''=foo=''))
     = [MissingHeader, UnknownElementKind ''foo'', MissingFooter]"
    by code_simp
  then show ?thesis
    using C2_no_unmatched_container_error[of isValidElementType decimalNumber "''=foo=''"] by simp
qed

text \<open>Claim C2 as stated fails: the source below has one occurrence of \<open>=divide=\<close>, the
  container it opens is still open when the body ends, and \<^verbatim>\<open>parse\<close> returns no
  error at all.\<close>

theorem C2_counterexample:
  "parse_errors (parse isValidElementType decimalNumber src_open_divide) = []
   \<and> openFrames isValidElementType decimalNumber src_open_divide
       = [\<lparr>frame_element = [0], frame_indent = 0\<rparr>]"
  by code_simp

subsection \<open>Closing by keyword\<close>

text \<open>
  Claim C6. At the head of the body loop, where every frame of the stack refers to a
  \<open>divide\<close> element:
  \<^item> a line whose stripped content is exactly \<open>=divide=\<close>, met while a container is open,
    pops the innermost frame and does nothing else, whatever the indentation of the line;
  \<^item> every other line leaves each open frame in place (the old stack is a prefix of the new
    one), whatever its indentation: no container is closed by a dedent.
\<close>

theorem C6_close_by_keyword:
  assumes "framesOpen (body st) stack"
  shows "(snd (parseIndentation rawLine) = ''=divide='' \<and> stack \<noteq> [] \<longrightarrow>
            parseBody_line valid num st stack rawLine = (st, butlast stack))
       \<and> (snd (parseIndentation rawLine) \<noteq> ''=divide='' \<longrightarrow>
            take (length stack) (snd (parseBody_line valid num st stack rawLine)) = stack)"
proof (intro conjI impI)
  assume "snd (parseIndentation rawLine) = ''=divide='' \<and> stack \<noteq> []"
  then show "parseBody_line valid num st stack rawLine = (st, butlast stack)"
    by (cases "parseIndentation rawLine") (simp add: parseBody_line_def)
next
  assume nk: "snd (parseIndentation rawLine) \<noteq> ''=divide=''"
  obtain ind cont where pi: "parseIndentation rawLine = (ind, cont)"
    by (cases "parseIndentation rawLine")
  obtain r st1 where ps: "parseStatement valid num st cont (currentLine st + 1) = (r, st1)"
    by (cases "parseStatement valid num st cont (currentLine st + 1)")
  have b1: "body st1 = body st" by (rule parseStatement_body[OF ps])
  have pop: "popClosed (body st1) stack ind = stack"
    using assms b1 by (simp add: popClosed_framesOpen)
  show "take (length stack) (snd (parseBody_line valid num st stack rawLine)) = stack"
  proof (cases r)
    case None
    then show ?thesis using pi ps nk by (simp add: parseBody_line_def)
  next
    case (Some n)
    then have "snd (parseBody_line valid num st stack rawLine) = snd (placeNode st1 stack ind n)"
      using pi ps nk by (simp add: parseBody_line_def)
    moreover have "take (length stack) (snd (placeNode st1 stack ind n)) = stack"
      using pop by (cases n) (auto simp: placeNode_def Let_def)
    ultimately show ?thesis by simp
  qed
qed

text \<open>With a container open at indentation level 2: the bare keyword at level 0 pops it,
  a text line at level 0 leaves it open.\<close>

theorem C6_close_by_keyword_witness:
  "framesOpen (body state_open_divide) [\<lparr>frame_element = [0], frame_indent = 2\<rparr>]
   \<and> parseIndentation ''=divide='' = (0, ''=divide='')
   \<and> parseBody_line isValidElementType decimalNumber state_open_divide
         [\<lparr>frame_element = [0], frame_indent = 2\<rparr>] ''=divide='' = (state_open_divide, [])
   \<and> parseIndentation ''=text=hi='' = (0, ''=text=hi='')
   \<and> take 1 (snd (parseBody_line isValidElementType decimalNumber state_open_divide
         [\<lparr>frame_element = [0], frame_indent = 2\<rparr>] ''=text=hi=''))
       = [\<lparr>frame_element = [0], frame_indent = 2\<rparr>]"
proof -
  have fo: "framesOpen (body state_open_divide) [\<lparr>frame_element = [0], frame_indent = 2\<rparr>]"
    by code_simp
  have i1: "parseIndentation ''=divide='' = (0, ''=divide='')" by code_simp
  have i2: "parseIndentation ''=text=hi='' = (0, ''=text=hi='')" by code_simp
  show ?thesis
    using C6_close_by_keyword[OF fo, of "''=divide=''" isValidElementType decimalNumber]
      C6_close_by_keyword[OF fo, of "''=text=hi=''" isValidElementType decimalNumber] fo i1 i2
    by simp
qed

subsection \<open>Attachment and indentation\<close>

lemma startLine_addChild [simp]: "startLine (addChild x n) = startLine x"
  by (cases x) auto

lemma lineIndent_addChild [simp]: "lineIndent ls (addChild x n) = lineIndent ls x"
  by (simp add: lineIndent_def)

lemma lineIndent_Element:
  "lineIndent ls (Element ty ps ch' c ind loc) = lineIndent ls (Element ty ps ch c ind loc)"
  by (simp add: lineIndent_def)

lemma pushChild_indented_gen:
  "list_all (\<lambda>x. (b \<longrightarrow> 0 < lineIndent ls x) \<and> childrenIndented ls x) forest \<Longrightarrow>
   0 < lineIndent ls n \<Longrightarrow> childrenIndented ls n \<Longrightarrow>
   list_all (\<lambda>x. (b \<longrightarrow> 0 < lineIndent ls x) \<and> childrenIndented ls x) (pushChild p n forest)"
proof (induction p n forest arbitrary: b rule: pushChild.induct)
  case (1 n forest)
  then show ?case by simp
next
  case (2 i n forest)
  show ?case
  proof (cases "i < length forest")
    case True
    have "(b \<longrightarrow> 0 < lineIndent ls (forest ! i)) \<and> childrenIndented ls (forest ! i)"
      using 2(1) True by (simp add: list_all_length)
    moreover have "childrenIndented ls (forest ! i) \<Longrightarrow> childrenIndented ls (addChild (forest ! i) n)"
      using 2(2,3) by (cases "forest ! i") auto
    ultimately have "(b \<longrightarrow> 0 < lineIndent ls (addChild (forest ! i) n)) \<and> childrenIndented ls (addChild (forest ! i) n)"
      by simp
    then show ?thesis using 2(1) True by (simp add: list_all_update)
  next
    case False
    then show ?thesis using 2(1) by simp
  qed
next
  case (3 i j p n forest)
  show ?case
  proof (cases "i < length forest")
    case True
    have ci: "(b \<longrightarrow> 0 < lineIndent ls (forest ! i)) \<and> childrenIndented ls (forest ! i)"
      using 3(2) True by (simp add: list_all_length)
    show ?thesis
    proof (cases "forest ! i")
      case (Element ty ps ch c ind loc)
      have ch: "list_all (\<lambda>x. (True \<longrightarrow> 0 < lineIndent ls x) \<and> childrenIndented ls x) ch"
        using ci Element by simp
      from 3(1)[OF True Element ch 3(3,4)]
      have ih: "list_all (\<lambda>x. 0 < lineIndent ls x \<and> childrenIndented ls x) (pushChild (j # p) n ch)"
        by simp
      have "(b \<longrightarrow> 0 < lineIndent ls (Element ty ps (pushChild (j # p) n ch) c ind loc))
          \<and> childrenIndented ls (Element ty ps (pushChild (j # p) n ch) c ind loc)"
        using ih ci Element lineIndent_Element[of ls ty ps "pushChild (j # p) n ch" c ind loc ch]
        by simp
      then show ?thesis using 3(2) True Element by (simp add: list_all_update)
    qed (use 3(2) True list_update_id[of forest i] in simp_all)
  next
    case False
    then show ?thesis using 3(2) by simp
  qed
qed

lemma pushChild_indented:
  "list_all (childrenIndented ls) forest \<Longrightarrow> 0 < lineIndent ls n \<Longrightarrow> childrenIndented ls n \<Longrightarrow>
     list_all (childrenIndented ls) (pushChild p n forest)"
  using pushChild_indented_gen[of False ls forest n p] by simp

lemma parseElement_startLine [simp]: "startLine (parseElement ty remaining k) = k"
  by (auto simp: parseElement_def createElement_def createLocation_def split: option.splits)

lemma parseStatement_startLine:
  "parseStatement valid num st ln k = (Some n, st1) \<Longrightarrow> startLine n = k"
  by (auto dest!: parseStatement_node
      simp: createSpecial_def parseDocProperty_def createProperty_def createLocation_def Let_def)

lemma parseStatement_childrenIndented:
  "parseStatement valid num st ln k = (Some n, st1) \<Longrightarrow> childrenIndented ls n"
proof -
  assume "parseStatement valid num st ln k = (Some n, st1)"
  from parseStatement_node[OF this] show ?thesis
  proof (elim disjE exE)
    fix ty remaining assume n: "n = parseElement ty remaining k"
    have "isElementNode n" "children n = []" using n by simp_all
    then show ?thesis by (cases n) auto
  qed (auto simp: createSpecial_def parseDocProperty_def createProperty_def Let_def)
qed

lemma placeNode_body:
  assumes "framesOpen (body st) stack" "isElementNode n \<or> isSpecialNode n"
  shows "body (fst (placeNode st stack ind n))
     = (if stack \<noteq> [] \<and> 0 < ind then pushChild (frame_element (last stack)) n (body st)
        else body st @ [n])"
  using assms popClosed_framesOpen[OF assms(1), of ind]
  by (cases n) (auto simp: placeNode_def Let_def)

lemma placeNode_body_other:
  assumes "\<not> (isElementNode n \<or> isSpecialNode n)"
  shows "body (fst (placeNode st stack ind n)) = body st"
  using assms by (cases n) (auto simp: placeNode_def Let_def)

lemma parseBody_line_indented:
  assumes inv: "list_all (childrenIndented (lines st)) (body st)" and fr: "framesOpen (body st) stack"
    and lt: "currentLine st < length (lines st)"
    and res: "parseBody_line valid num st stack (lines st ! currentLine st) = (st', stack')"
  shows "list_all (childrenIndented (lines st')) (body st')"
proof -
  let ?raw = "lines st ! currentLine st"
  obtain ind cont where pi: "parseIndentation ?raw = (ind, cont)"
    by (cases "parseIndentation ?raw")
  obtain r st1 where ps: "parseStatement valid num st cont (currentLine st + 1) = (r, st1)"
    by (cases "parseStatement valid num st cont (currentLine st + 1)")
  have b1: "body st1 = body st" by (rule parseStatement_body[OF ps])
  have l1: "lines st1 = lines st" using parseStatement_lines[OF ps] by simp
  have l': "lines st' = lines st" using parseBody_line_lines[OF res] by simp
  show ?thesis
  proof (cases "cont = ''=divide='' \<and> stack \<noteq> []")
    case True
    then show ?thesis using res pi inv by (auto simp: parseBody_line_def)
  next
    case False
    show ?thesis
    proof (cases r)
      case None
      then show ?thesis using res pi ps False inv b1 l1 by (auto simp: parseBody_line_def)
    next
      case (Some n)
      then have pl: "placeNode st1 stack ind n = (st', stack')"
        using res pi ps False by (auto simp: parseBody_line_def)
      have sl: "startLine n = currentLine st + 1" using ps Some by (auto dest: parseStatement_startLine)
      have ci: "childrenIndented (lines st) n" using ps Some by (auto dest: parseStatement_childrenIndented)
      have li: "lineIndent (lines st) n = ind" using sl lt pi by (simp add: lineIndent_def)
      show ?thesis
      proof (cases "isElementNode n \<or> isSpecialNode n")
        case True
        have "body st' = (if stack \<noteq> [] \<and> 0 < ind then pushChild (frame_element (last stack)) n (body st)
              else body st @ [n])"
          using placeNode_body[of st1 stack n ind] fr b1 True pl by simp
        then show ?thesis using inv ci li l' by (auto intro: pushChild_indented)
      next
        case False
        then show ?thesis using placeNode_body_other[of n st1 stack ind] pl inv b1 l' by simp
      qed
    qed
  qed
qed

lemma parseBody_loop_indented:
  "list_all (childrenIndented (lines st)) (body st) \<Longrightarrow>
   list_all onlyDivideHasChildren (body st) \<Longrightarrow> framesOpen (body st) stack \<Longrightarrow>
   parseBody_loop valid num st stack = (st', stack') \<Longrightarrow>
   list_all (childrenIndented (lines st')) (body st') \<and> lines st' = lines st"
proof (induction valid num st stack rule: parseBody_loop.induct)
  case (1 valid num st stack)
  show ?case
  proof (cases "currentLine st < length (lines st)")
    case False
    then show ?thesis using 1(3,6) by (subst (asm) parseBody_loop.simps) auto
  next
    case lt: True
    show ?thesis
    proof (cases "trim (lines st ! currentLine st) = ''==CTIW==''")
      case True
      then show ?thesis using lt 1(3,6) by (subst (asm) parseBody_loop.simps) auto
    next
      case nf: False
      show ?thesis
      proof (cases "trim (lines st ! currentLine st) = []")
        case True
        have "parseBody_loop valid num (st\<lparr>currentLine := currentLine st + 1\<rparr>) stack = (st', stack')"
          using 1(6) lt nf True by (subst (asm) parseBody_loop.simps) simp
        then show ?thesis using 1(1)[OF lt nf True] 1(3,4,5) by auto
      next
        case ne: False
        obtain st1 stack1 where pl:
          "parseBody_line valid num st stack (lines st ! currentLine st) = (st1, stack1)"
          by (cases "parseBody_line valid num st stack (lines st ! currentLine st)")
        have i1: "list_all onlyDivideHasChildren (body st1) \<and> framesOpen (body st1) stack1"
          using parseBody_line_inv[OF 1(4,5) pl] .
        have i2: "list_all (childrenIndented (lines st1)) (body st1)"
          using parseBody_line_indented[OF 1(3,5) lt pl] .
        have l1: "lines st1 = lines st" using parseBody_line_lines[OF pl] by simp
        have "parseBody_loop valid num (st1\<lparr>currentLine := currentLine st1 + 1\<rparr>) stack1 = (st', stack')"
          using 1(6) lt nf ne pl by (subst (asm) parseBody_loop.simps) simp
        then show ?thesis using 1(2)[OF lt nf ne pl[symmetric]] i1 i2 l1 by auto
      qed
    qed
  qed
qed

lemma skipEmptyLines_lines [simp]: "lines (skipEmptyLines st) = lines st"
  by (induction st rule: skipEmptyLines.induct) (subst skipEmptyLines.simps, auto)

lemma parseHeader_lines: "parseHeader st = (ok, st') \<Longrightarrow> lines st' = lines st"
  by (auto simp: parseHeader_def Let_def split: if_splits)

lemma parseFooter_lines: "parseFooter st = (ok, st') \<Longrightarrow> lines st' = lines st"
  by (auto simp: parseFooter_def Let_def split: if_splits)

lemma parse_children_indented:
  "list_all (childrenIndented (split nl src)) (doc_children (document (parse valid num src)))"
proof -
  obtain ok st1 where h: "parseHeader (new_Parser src) = (ok, st1)"
    by (cases "parseHeader (new_Parser src)")
  define st2 where "st2 = (if \<not> ok then addParseError st1 MissingHeader None else st1)"
  obtain st3 stack3 where l: "parseBody_loop valid num st2 [] = (st3, stack3)"
    by (cases "parseBody_loop valid num st2 []")
  obtain ok2 st4 where f: "parseFooter st3 = (ok2, st4)" by (cases "parseFooter st3")
  have b2: "body st2 = []" using parseHeader_body[OF h] by (simp add: st2_def new_Parser_def)
  have l2: "lines st2 = split nl src" using parseHeader_lines[OF h] by (simp add: st2_def new_Parser_def)
  have "list_all (childrenIndented (lines st3)) (body st3) \<and> lines st3 = lines st2"
    using parseBody_loop_indented[OF _ _ _ l] b2 by (auto simp: framesOpen_def)
  then have "list_all (childrenIndented (split nl src)) (body st3)" using l2 by auto
  moreover have "body st4 = body st3" by (rule parseFooter_body[OF f])
  ultimately show ?thesis
    using h l f
    by (simp add: parse_def Parser_parse_def parseBody_def st2_def[symmetric] createDocument_def
        Let_def)
qed

lemma parseIndentation_level:
  assumes "list_all isJsSpace sp" "rest = [] \<or> (hd rest \<noteq> CHR ''.'' \<and> \<not> isJsSpace (hd rest))"
  shows "fst (parseIndentation (sp @ replicate k (CHR ''.'') @ rest)) = k div 2"
proof -
  have d: "\<not> isJsSpace (CHR ''.'')" by (simp add: isJsSpace_def code_def)
  have 1: "dropWhile isJsSpace (sp @ replicate k (CHR ''.'') @ rest)
      = dropWhile isJsSpace (replicate k (CHR ''.'') @ rest)"
    using assms(1) by (induction sp) auto
  have 2: "dropWhile isJsSpace (replicate k (CHR ''.'') @ rest)
      = (if k = 0 then dropWhile isJsSpace rest else replicate k (CHR ''.'') @ rest)"
    using d by (cases k) auto
  have 3: "takeWhile (\<lambda>c. c = CHR ''.'') (replicate k (CHR ''.'') @ r) = replicate k (CHR ''.'') @ takeWhile (\<lambda>c. c = CHR ''.'') r" for r
    by (induction k) auto
  have 4: "takeWhile (\<lambda>c. c = CHR ''.'') rest = []" using assms(2) by (cases rest) auto
  show ?thesis
  proof (cases "k = 0")
    case True
    have "dropWhile isJsSpace rest = rest" using assms(2) by (cases rest) auto
    moreover have "dropWhile isJsSpace (sp @ rest) = dropWhile isJsSpace rest"
      using assms(1) by (induction sp) auto
    ultimately show ?thesis using True 4 by (simp add: parseIndentation_def trimStart_def Let_def)
  next
    case False
    then show ?thesis by (simp add: parseIndentation_def trimStart_def 1 2 3 4 Let_def)
  qed
qed

text \<open>
  Claim C4, amended. The indentation level of a line is the number of its leading dots
  divided by two, rounded down. In the document that \<^verbatim>\<open>parse\<close> returns, every child of
  an element, at every depth, comes from a line whose indentation level is at least one;
  it need not exceed the level of the line of its container. At the head of the body loop,
  a statement that parses to an Element or a Special node is attached to the innermost open
  container whenever the indentation level of its line is greater than zero, whatever
  indentation that container was recorded with, and to the top-level list of the document
  when its level is zero or no container is open.
\<close>

theorem C4_attachment_by_indentation:
  "list_all (childrenIndented (split nl src)) (doc_children (document (parse valid num src)))
   \<and> (list_all isJsSpace sp \<and> (rest = [] \<or> (hd rest \<noteq> CHR ''.'' \<and> \<not> isJsSpace (hd rest))) \<longrightarrow>
        fst (parseIndentation (sp @ replicate k (CHR ''.'') @ rest)) = k div 2)
   \<and> (framesOpen (body st) stack \<and> parseIndentation rawLine = (ind, cont)
        \<and> \<not> (cont = ''=divide='' \<and> stack \<noteq> [])
        \<and> parseStatement valid num st cont (currentLine st + 1) = (Some n, st1)
        \<and> (isElementNode n \<or> isSpecialNode n) \<longrightarrow>
        body (fst (parseBody_line valid num st stack rawLine))
          = (if stack \<noteq> [] \<and> 0 < ind then pushChild (frame_element (last stack)) n (body st)
             else body st @ [n]))"
proof (intro conjI impI)
  show "list_all (childrenIndented (split nl src)) (doc_children (document (parse valid num src)))"
    by (rule parse_children_indented)
next
  assume "list_all isJsSpace sp \<and> (rest = [] \<or> (hd rest \<noteq> CHR ''.'' \<and> \<not> isJsSpace (hd rest)))"
  then show "fst (parseIndentation (sp @ replicate k (CHR ''.'') @ rest)) = k div 2"
    using parseIndentation_level by blast
next
  assume a: "framesOpen (body st) stack \<and> parseIndentation rawLine = (ind, cont)
        \<and> \<not> (cont = ''=divide='' \<and> stack \<noteq> [])
        \<and> parseStatement valid num st cont (currentLine st + 1) = (Some n, st1)
        \<and> (isElementNode n \<or> isSpecialNode n)"
  then have b1: "body st1 = body st" using parseStatement_body by blast
  have "parseBody_line valid num st stack rawLine = placeNode st1 stack ind n"
    using a by (auto simp: parseBody_line_def)
  then show "body (fst (parseBody_line valid num st stack rawLine))
          = (if stack \<noteq> [] \<and> 0 < ind then pushChild (frame_element (last stack)) n (body st)
             else body st @ [n])"
    using placeNode_body[of st1 stack n ind] a b1 by simp
qed

text \<open>A child two dots deep under a container opened four dots deep: the child's level is
  1, it is attached to the open container, and the tree of the source of the
  counterexample below satisfies the invariant.\<close>

theorem C4_attachment_by_indentation_witness:
  "list_all (childrenIndented (split nl src_same_indent))
     (doc_children (document (parse isValidElementType decimalNumber src_same_indent)))
   \<and> fst (parseIndentation ''..=text=hi='') = 1
   \<and> framesOpen (body state_open_divide) [\<lparr>frame_element = [0], frame_indent = 2\<rparr>]
   \<and> body (fst (parseBody_line isValidElementType decimalNumber state_open_divide
         [\<lparr>frame_element = [0], frame_indent = 2\<rparr>] ''..=text=hi=''))
       = [Element ''divide'' [] [Element ''text'' [] [] (Some ''hi'') 0 (3, 1, 3, 3)] None 0 (2, 1, 2, 1)]"
proof -
  note inst = C4_attachment_by_indentation[of src_same_indent isValidElementType decimalNumber
      "[]" "''=text=hi=''" 2 state_open_divide "[\<lparr>frame_element = [0], frame_indent = 2\<rparr>]"
      "''..=text=hi=''" 1 "''=text=hi=''" "Element ''text'' [] [] (Some ''hi'') 0 (3, 1, 3, 3)"
      state_open_divide]
  have h2: "list_all isJsSpace [] \<and> (''=text=hi='' = [] \<or> (hd ''=text=hi='' \<noteq> CHR ''.'' \<and> \<not> isJsSpace (hd ''=text=hi='')))"
    by (simp add: isJsSpace_def code_def)
  have fo: "framesOpen (body state_open_divide) [\<lparr>frame_element = [0], frame_indent = 2\<rparr>]"
    by code_simp
  have pi: "parseIndentation ''..=text=hi='' = (1, ''=text=hi='')" by code_simp
  have ps: "parseStatement isValidElementType decimalNumber state_open_divide ''=text=hi=''
       (currentLine state_open_divide + 1)
     = (Some (Element ''text'' [] [] (Some ''hi'') 0 (3, 1, 3, 3)), state_open_divide)"
    by code_simp
  have pc: "pushChild [0] (Element ''text'' [] [] (Some ''hi'') 0 (3, 1, 3, 3)) (body state_open_divide)
     = [Element ''divide'' [] [Element ''text'' [] [] (Some ''hi'') 0 (3, 1, 3, 3)] None 0 (2, 1, 2, 1)]"
    by code_simp
  have c1: "list_all (childrenIndented (split nl src_same_indent))
     (doc_children (document (parse isValidElementType decimalNumber src_same_indent)))"
    using inst by blast
  have c2: "fst (parseIndentation ''..=text=hi='') = 1"
    using conjunct1[OF conjunct2[OF inst]] h2 by (simp add: numeral_2_eq_2)
  have c3: "body (fst (parseBody_line isValidElementType decimalNumber state_open_divide
         [\<lparr>frame_element = [0], frame_indent = 2\<rparr>] ''..=text=hi=''))
       = [Element ''divide'' [] [Element ''text'' [] [] (Some ''hi'') 0 (3, 1, 3, 3)] None 0 (2, 1, 2, 1)]"
    using conjunct2[OF conjunct2[OF inst]] fo pi ps pc by simp
  show ?thesis using c1 c2 fo c3 by blast
qed

text \<open>Claim C4 as stated fails: in the source below the container and the text line both
  have two dots, indentation level 1, and the text is attached as a child of the
  container; the \<open>indent\<close> field of both nodes is 0.\<close>

theorem C4_counterexample:
  "doc_children (document (parse isValidElementType decimalNumber src_same_indent))
     = [Element ''divide'' [] [Element ''text'' [] [] (Some ''hi'') 0 (3, 1, 3, 3)] None 0 (2, 1, 2, 1)]
   \<and> fst (parseIndentation ''..=divide='') = 1
   \<and> fst (parseIndentation ''..=text=hi='') = 1"
  by code_simp

subsection \<open>The first title wins\<close>






















section \<open>Code generator: escaping, unknown kinds, determinism\<close>

subsection \<open>Escaping\<close>

text \<open>The result of \<^verbatim>\<open>escapeHTML\<close> holds none of \<open><\<close>, \<open>>\<close>, the double quote and the single
  quote: this is what element content, the page title and the values written by
  \<^verbatim>\<open>generateAttributes\<close> go through.\<close>

lemma replaceAll_set:
  "set (replaceAll c r s) = (set s - {c}) \<union> (if c \<in> set s then set r else {})"
  by (induction s) (auto simp: replaceAll_def)

lemma escapeHTML_no_special:
  "CHR ''<'' \<notin> set (escapeHTML t)" "CHR ''>'' \<notin> set (escapeHTML t)"
  "dq \<notin> set (escapeHTML t)" "sq \<notin> set (escapeHTML t)"
  by (auto simp: escapeHTML_def replaceAll_set dq_def sq_def split: if_splits)


text \<open>
  Claim C1. Every text supplied by the author (element content, attribute values such as
  id, href, src, placeholder, the metadata title) is escaped by \<^verbatim>\<open>escapeHTML\<close> before
  \<^verbatim>\<open>generateHTML\<close> emits it.

  The code departs from this for the \<open>id\<close> of a \<open>password\<close>, \<open>input\<close>, \<open>img\<close> or \<open>link\<close>
  element: these four branches of \<^verbatim>\<open>generateElement\<close> build their own \<^verbatim>\<open>idAttr\<close> from
  \<^verbatim>\<open>element.properties.id\<close> as it is, whereas \<^verbatim>\<open>generateAttributes\<close>, which every
  other element goes through, escapes the same value. The source below is parsed into a
  password element whose id is \<open>a"b\<close>; the page holds the tag with the quote as it was
  written and no \<open>&quot;\<close> anywhere, while \<^verbatim>\<open>generateAttributes\<close> on the same properties
  writes \<open>id="a&quot;b"\<close>.\<close>

theorem C1_id_unescaped:
  "doc_children (document (parse isValidElementType decimalNumber src_quote_id)) = [element_quote_id]
   \<and> includesStr (''<input type='' @ [dq] @ ''password'' @ [dq] @ '' id='' @ [dq] @ ''a'' @ [dq] @ ''b'' @ [dq] @ ''>'')
        (compile isValidElementType decimalNumber src_quote_id)
   \<and> \<not> includesStr ''&quot;'' (compile isValidElementType decimalNumber src_quote_id)
   \<and> generateAttributes (properties element_quote_id) = '' id='' @ [dq] @ ''a&quot;b'' @ [dq]"
  by code_simp

subsection \<open>Unknown kinds\<close>


lemma endsWith_append: "endsWith p (s @ p)"
  by (simp add: endsWith_def)







subsection \<open>Determinism\<close>





end
